theory Spec2Isabelle
  imports Main "HOL-Library.Word" "HOL-Library.Monad_Syntax"
begin

section \<open>Collaborators of ast.cpp: types, symbols, tokens, operations\<close>

text \<open>
  The classes below are declared outside ast.cpp (type.h, symtab.h, scanner.h, ir.h).
  They are modelled from the operations ast.cpp calls on them and from the data model of
  the specification. A C++ pointer that may be NULL is an \<open>option\<close> (\<open>None\<close> is NULL).
\<close>

text \<open>Modelled from the spec: the type descriptors of the type registry: the singleton
  types null, integer, character and boolean, pointer-to-T (a NULL base type is allowed) and
  array-of-T with an element count.\<close>

datatype CType =
    CNullType
  | CIntType
  | CCharType
  | CBoolType
  | CPointerType "CType option"
  | CArrayType int CType

fun IsNull :: "CType \<Rightarrow> bool" where
  "IsNull CNullType = True"
| "IsNull CIntType = False"
| "IsNull CCharType = False"
| "IsNull CBoolType = False"
| "IsNull (CPointerType b) = False"
| "IsNull (CArrayType n t) = False"

fun IsPointer :: "CType \<Rightarrow> bool" where
  "IsPointer CNullType = False"
| "IsPointer CIntType = False"
| "IsPointer CCharType = False"
| "IsPointer CBoolType = False"
| "IsPointer (CPointerType b) = True"
| "IsPointer (CArrayType n t) = False"

fun IsArray :: "CType \<Rightarrow> bool" where
  "IsArray CNullType = False"
| "IsArray CIntType = False"
| "IsArray CCharType = False"
| "IsArray CBoolType = False"
| "IsArray (CPointerType b) = False"
| "IsArray (CArrayType n t) = True"

text \<open>Modelled from the spec: integer, character, boolean and pointer are the scalar
  types (ast.cpp: "remark that pointer type is scalar type").\<close>

fun IsScalar :: "CType \<Rightarrow> bool" where
  "IsScalar CNullType = False"
| "IsScalar CIntType = True"
| "IsScalar CCharType = True"
| "IsScalar CBoolType = True"
| "IsScalar (CPointerType b) = True"
| "IsScalar (CArrayType n t) = False"

text \<open>Modelled from the spec: \<open>Match\<close> is structural equality of type descriptors.\<close>

definition Match :: "CType \<Rightarrow> CType \<Rightarrow> bool" where
  "Match a b = (a = b)"

text \<open>Modelled from the spec: the accessors of pointer and array types. \<open>None\<close> where
  the dynamic cast to the pointer or array class gives NULL.\<close>

fun PointerBaseType :: "CType \<Rightarrow> CType option option" where
  "PointerBaseType (CPointerType b) = Some b"
| "PointerBaseType CNullType = None"
| "PointerBaseType CIntType = None"
| "PointerBaseType CCharType = None"
| "PointerBaseType CBoolType = None"
| "PointerBaseType (CArrayType n t) = None"

fun GetInnerType :: "CType \<Rightarrow> CType option" where
  "GetInnerType (CArrayType n t) = Some t"
| "GetInnerType CNullType = None"
| "GetInnerType CIntType = None"
| "GetInnerType CCharType = None"
| "GetInnerType CBoolType = None"
| "GetInnerType (CPointerType b) = None"

fun NDim :: "CType \<Rightarrow> int" where
  "NDim (CArrayType n t) = 1 + NDim t"
| "NDim CNullType = 0"
| "NDim CIntType = 0"
| "NDim CCharType = 0"
| "NDim CBoolType = 0"
| "NDim (CPointerType b) = 0"

fun GetNDim :: "CType \<Rightarrow> int option" where
  "GetNDim (CArrayType n t) = Some (1 + NDim t)"
| "GetNDim CNullType = None"
| "GetNDim CIntType = None"
| "GetNDim CCharType = None"
| "GetNDim CBoolType = None"
| "GetNDim (CPointerType b) = None"

fun BaseOf :: "CType \<Rightarrow> CType" where
  "BaseOf (CArrayType n t) = BaseOf t"
| "BaseOf CNullType = CNullType"
| "BaseOf CIntType = CIntType"
| "BaseOf CCharType = CCharType"
| "BaseOf CBoolType = CBoolType"
| "BaseOf (CPointerType b) = CPointerType b"

fun ArrayBaseType :: "CType \<Rightarrow> CType option" where
  "ArrayBaseType (CArrayType n t) = Some (BaseOf t)"
| "ArrayBaseType CNullType = None"
| "ArrayBaseType CIntType = None"
| "ArrayBaseType CCharType = None"
| "ArrayBaseType CBoolType = None"
| "ArrayBaseType (CPointerType b) = None"

text \<open>Modelled from the spec: a source-location token (line and character position);
  \<open>CToken_default\<close> is the default-constructed token.\<close>

datatype CToken = CToken nat nat

definition CToken_default :: CToken where
  "CToken_default = CToken 0 0"

text \<open>Modelled from the spec: a symbol has a name and a data type; a procedure symbol
  carries in addition the data types of its parameters, and its data type is its return
  type.\<close>

datatype CSymProc = CSymProc string "CType option" "CType option list"

datatype CSymbol =
    CSymVar string "CType option"
  | CSymProcedure CSymProc

fun ProcDataType :: "CSymProc \<Rightarrow> CType option" where
  "ProcDataType (CSymProc n t ps) = t"

fun GetNParams :: "CSymProc \<Rightarrow> int" where
  "GetNParams (CSymProc n t ps) = int (length ps)"

fun ParamTypes :: "CSymProc \<Rightarrow> CType option list" where
  "ParamTypes (CSymProc n t ps) = ps"

fun GetDataType :: "CSymbol \<Rightarrow> CType option" where
  "GetDataType (CSymVar n t) = t"
| "GetDataType (CSymProcedure p) = ProcDataType p"

text \<open>The operations of ir.h that ast.cpp names.\<close>

datatype EOperation =
    opAdd | opSub | opMul | opDiv | opAnd | opOr
  | opNeg | opPos | opNot
  | opEqual | opNotEqual | opLessThan | opLessEqual | opBiggerThan | opBiggerEqual
  | opAssign | opAddress | opDeref | opCast
  | opGoto | opCall | opReturn | opParam | opLabel | opNop

text \<open>Modelled from the spec: \<open>IsRelOp\<close> holds of the six relational operations.\<close>

definition IsRelOp :: "EOperation \<Rightarrow> bool" where
  "IsRelOp oper = (oper = opEqual \<or> oper = opNotEqual \<or> oper = opLessThan \<or>
     oper = opLessEqual \<or> oper = opBiggerThan \<or> oper = opBiggerEqual)"

section \<open>The expression nodes of the syntax tree\<close>

text \<open>
  One constructor per concrete expression class, with the fields of the class:
  the token of \<open>CAstNode\<close> first. The value of a constant is a \<open>long long\<close>.
  An array designator carries its index list and the flag \<open>_done\<close>.
\<close>

datatype CAstExpression =
    CAstBinaryOp CToken EOperation CAstExpression CAstExpression
  | CAstUnaryOp CToken EOperation CAstExpression
  | CAstSpecialOp CToken EOperation CAstExpression "CType option"
  | CAstFunctionCall CToken CSymProc "CAstExpression list"
  | CAstDesignator CToken CSymbol
  | CAstArrayDesignator CToken CSymbol "CAstExpression list" bool
  | CAstConstant CToken "CType option" "64 word"
  | CAstStringConstant CToken "CType option" CSymbol

fun GetToken :: "CAstExpression \<Rightarrow> CToken" where
  "GetToken (CAstBinaryOp t oper l r) = t"
| "GetToken (CAstUnaryOp t oper e) = t"
| "GetToken (CAstSpecialOp t oper e ty) = t"
| "GetToken (CAstFunctionCall t symb args) = t"
| "GetToken (CAstDesignator t symb) = t"
| "GetToken (CAstArrayDesignator t symb idx fin) = t"
| "GetToken (CAstConstant t ty v) = t"
| "GetToken (CAstStringConstant t ty symb) = t"

text \<open>\<open>dynamic_cast<CAstConstant*>(e) != NULL\<close>\<close>

fun IsConstant :: "CAstExpression \<Rightarrow> bool" where
  "IsConstant (CAstConstant t ty v) = True"
| "IsConstant (CAstBinaryOp t oper l r) = False"
| "IsConstant (CAstUnaryOp t oper e) = False"
| "IsConstant (CAstSpecialOp t oper e ty) = False"
| "IsConstant (CAstFunctionCall t symb args) = False"
| "IsConstant (CAstDesignator t symb) = False"
| "IsConstant (CAstArrayDesignator t symb idx fin) = False"
| "IsConstant (CAstStringConstant t ty symb) = False"

text \<open>\<open>dynamic_cast<CAstConstant*>(e)\<close> followed by \<open>GetValue()\<close>: \<open>None\<close> when
  the cast gives NULL.\<close>

fun ConstantValue :: "CAstExpression \<Rightarrow> 64 word option" where
  "ConstantValue (CAstConstant t ty v) = Some v"
| "ConstantValue (CAstBinaryOp t oper l r) = None"
| "ConstantValue (CAstUnaryOp t oper e) = None"
| "ConstantValue (CAstSpecialOp t oper e ty) = None"
| "ConstantValue (CAstFunctionCall t symb args) = None"
| "ConstantValue (CAstDesignator t symb) = None"
| "ConstantValue (CAstArrayDesignator t symb idx fin) = None"
| "ConstantValue (CAstStringConstant t ty symb) = None"

section \<open>GetType\<close>

text \<open>
  The result of a member function is an \<open>option\<close>: \<open>None\<close> where the source fails an
  assertion or dereferences a NULL pointer and so gives no result. \<open>GetType\<close> returns a
  pointer to a type, so its result is \<open>Some None\<close> for NULL.
\<close>

text \<open>The loop of \<open>CAstArrayDesignator::GetType\<close>: \<open>ret\<close> is never NULL at the head
  of an iteration.\<close>

fun GetType_strip :: "nat \<Rightarrow> CType \<Rightarrow> CType option" where
  "GetType_strip 0 ret = Some ret"
| "GetType_strip (Suc k) ret =
     (if \<not> IsArray ret then None
      else (case GetInnerType ret of
              None \<Rightarrow> None
            | Some inner \<Rightarrow> GetType_strip k inner))"

definition ArrayDesignator_GetType :: "CSymbol \<Rightarrow> nat \<Rightarrow> CType option option" where
  "ArrayDesignator_GetType symb nindices =
     (case GetDataType symb of
        None \<Rightarrow> None
      | Some st0 \<Rightarrow>
          (case (if IsPointer st0 then PointerBaseType st0 else Some (Some st0)) of
             None \<Rightarrow> None
           | Some None \<Rightarrow> None
           | Some (Some symbolType) \<Rightarrow>
               if \<not> IsArray symbolType then Some None
               else (case GetNDim symbolType of
                       None \<Rightarrow> None
                     | Some ndim \<Rightarrow>
                         if int nindices > ndim then Some None
                         else Some (GetType_strip nindices symbolType))))"

fun GetType :: "CAstExpression \<Rightarrow> CType option option" where
  "GetType (CAstBinaryOp t oper l r) =
     (if oper = opAdd \<or> oper = opSub \<or> oper = opMul \<or> oper = opDiv
      then Some (Some CIntType)
      else if oper = opAnd \<or> oper = opOr \<or> oper = opEqual \<or> oper = opNotEqual \<or>
              oper = opLessThan \<or> oper = opLessEqual \<or> oper = opBiggerThan \<or>
              oper = opBiggerEqual
      then Some (Some CBoolType)
      else Some None)"
| "GetType (CAstUnaryOp t oper e) =
     (if oper = opNeg \<or> oper = opPos then Some (Some CIntType)
      else if oper = opNot then Some (Some CBoolType)
      else Some None)"
| "GetType (CAstSpecialOp t oper e ty) =
     (if oper = opAddress then
        (case GetType e of
           None \<Rightarrow> None
         | Some ety \<Rightarrow> Some (Some (CPointerType ety)))
      else if oper = opDeref then
        (case GetType e of
           None \<Rightarrow> None
         | Some None \<Rightarrow> None
         | Some (Some ety) \<Rightarrow>
             if IsPointer ety then PointerBaseType ety else Some None)
      else if oper = opCast then Some ty
      else Some None)"
| "GetType (CAstFunctionCall t symb args) = Some (ProcDataType symb)"
| "GetType (CAstDesignator t symb) = Some (GetDataType symb)"
| "GetType (CAstArrayDesignator t symb idx fin) = ArrayDesignator_GetType symb (length idx)"
| "GetType (CAstConstant t ty v) = Some ty"
| "GetType (CAstStringConstant t ty symb) = Some ty"

section \<open>TypeCheck\<close>

text \<open>
  \<open>bool TypeCheck(CToken *t, string *msg)\<close> writes the token and the message of the
  first error through its two pointers. The model threads the pair they point to (both
  pointers non-NULL) and returns it with the boolean result. A message is the sequence of
  items sent to the output stream; how a type is printed is declared outside ast.cpp and
  stays symbolic (\<open>Typ\<close>).
\<close>

datatype out_item = Str string | Endl | Typ CType | Num int

type_synonym diag = "CToken \<times> out_item list"

text \<open>\<open>if (ty) out << ty << endl; else out << "<INVALID>" << endl;\<close>\<close>

fun type_or_invalid :: "CType option \<Rightarrow> out_item list" where
  "type_or_invalid (Some ty) = [Typ ty, Endl]"
| "type_or_invalid None = [Str ''<INVALID>'', Endl]"

text \<open>\<open>CAstBinaryOp::TypeCheck\<close> after both operands have passed their own check.\<close>

definition BinaryOp_check ::
  "CToken \<Rightarrow> EOperation \<Rightarrow> CToken \<Rightarrow> CToken \<Rightarrow> CType option \<Rightarrow> CType option \<Rightarrow> diag
     \<Rightarrow> bool \<times> diag" where
  "BinaryOp_check tok oper ltok rtok lt rt d =
     (if lt = None \<or> \<not> IsScalar (the lt) then
        (False, (ltok, [Str ''the type of left operand is not scalar type.'', Endl,
                        Str ''left operand : ''] @ type_or_invalid lt))
      else if rt = None \<or> \<not> IsScalar (the rt) then
        (False, (rtok, [Str ''the type of right operand is not scalar type.'', Endl,
                        Str ''right operand : ''] @ type_or_invalid rt))
      else if IsPointer (the lt) then
        (False, (ltok, [Str ''the type of left operand cannot be a pointer type'']))
      else if IsPointer (the rt) then
        (False, (rtok, [Str ''the type of right operand cannot be a pointer type'']))
      else if \<not> Match (the lt) (the rt) then
        (False, (tok, [Str ''the type of left operand does not match with the type of right operand.'',
                       Endl,
                       Str ''left operand : '', Typ (the lt), Endl,
                       Str ''right operand : '', Typ (the rt), Endl]))
      else if oper = opAdd \<or> oper = opSub \<or> oper = opMul \<or> oper = opDiv then
        (if \<not> Match (the lt) CIntType then
           (False, (ltok, [Str ''the type of operands should be an integer type '',
                           Str ''in '', Str ''this'', Str '' operation.'', Endl,
                           Str ''left operand : '', Typ (the lt), Endl,
                           Str ''right operand : '', Typ (the rt), Endl]))
         else (True, d))
      else if oper = opAnd \<or> oper = opOr then
        (if \<not> Match (the lt) CBoolType then
           (False, (ltok, [Str ''the type of operands should be an boolean type '',
                           Str ''in '', Str ''this'', Str '' operation.'', Endl,
                           Str ''left operand : '', Typ (the lt), Endl,
                           Str ''right operand : '', Typ (the rt), Endl]))
         else (True, d))
      else if oper = opEqual \<or> oper = opNotEqual then (True, d)
      else if oper = opLessThan \<or> oper = opLessEqual \<or> oper = opBiggerThan \<or>
              oper = opBiggerEqual then
        (if Match (the lt) CBoolType then
           (False, (ltok, [Str ''the type of operands cannot be boolean type '',
                           Str ''in '', Str ''this'', Str '' operation.'', Endl,
                           Str ''left operand : '', Typ (the lt), Endl,
                           Str ''right operand : '', Typ (the rt), Endl]))
         else (True, d))
      else (False, (ltok, [Str ''the operation is not valid.'', Endl])))"

text \<open>The cases \<open>opNeg\<close>, \<open>opPos\<close> and \<open>opNot\<close> of the switch of
  \<open>CAstUnaryOp::TypeCheck\<close>.\<close>

definition UnaryOp_check ::
  "EOperation \<Rightarrow> CToken \<Rightarrow> CType option \<Rightarrow> diag \<Rightarrow> bool \<times> diag" where
  "UnaryOp_check oper otok oty d =
     (if oper = opNeg \<or> oper = opPos then
        (if oty = None \<or> \<not> Match (the oty) CIntType then
           (False, (otok, [Str ''the type of operand should be an integer type '',
                           Str ''in '', Str ''this'', Str '' operation.'', Endl,
                           Str ''operand : ''] @ type_or_invalid oty))
         else (True, d))
      else
        (if oty = None \<or> \<not> Match (the oty) CBoolType then
           (False, (otok, [Str ''the type of operand should be a boolean type '',
                           Str ''in '', Str ''this'', Str '' operation.'', Endl,
                           Str ''operand : ''] @ type_or_invalid oty))
         else (True, d)))"

definition Deref_check :: "CToken \<Rightarrow> CType option \<Rightarrow> diag \<Rightarrow> bool \<times> diag" where
  "Deref_check otok oty d =
     (if oty = None \<or> \<not> IsPointer (the oty) then
        (False, (otok, [Str ''the dereference of non-pointer type (''] @
                       (case oty of Some ty \<Rightarrow> [Typ ty] | None \<Rightarrow> [Str ''<INVALID>'']) @
                       [Str '') is not allowed.'', Endl]))
      else (True, d))"

definition Constant_check :: "CToken \<Rightarrow> CType option \<Rightarrow> 64 word \<Rightarrow> diag \<Rightarrow> bool \<times> diag" where
  "Constant_check tok ty v d =
     (if ty = None \<or> IsNull (the ty) then (False, (tok, [Str ''invalid constant type.'']))
      else if v = push_bit 31 1 then
        (False, (tok, [Str ''invalid number. ('', Num (sint v), Str '')'', Endl]))
      else (True, d))"

fun TypeCheck :: "CAstExpression \<Rightarrow> diag \<Rightarrow> (bool \<times> diag) option"
  and TypeCheck_args :: "CAstExpression list \<Rightarrow> CType option list \<Rightarrow> diag \<Rightarrow> (bool \<times> diag) option"
  and TypeCheck_indices :: "CAstExpression list \<Rightarrow> diag \<Rightarrow> (bool \<times> diag) option"
where
  "TypeCheck (CAstBinaryOp t oper lhs rhs) d =
     do {
       (okl, d1) \<leftarrow> TypeCheck lhs d;
       if \<not> okl then Some (False, d1)
       else do {
         (okr, d2) \<leftarrow> TypeCheck rhs d1;
         if \<not> okr then Some (False, d2)
         else do {
           lt \<leftarrow> GetType lhs;
           rt \<leftarrow> GetType rhs;
           Some (BinaryOp_check t oper (GetToken lhs) (GetToken rhs) lt rt d2)
         }
       }
     }"
| "TypeCheck (CAstUnaryOp t oper operand) d =
     do {
       (ok, d1) \<leftarrow> TypeCheck operand d;
       if \<not> ok then
         (if IsConstant operand \<and> oper = opNeg then Some (True, d1) else Some (False, d1))
       else if oper = opNeg \<or> oper = opPos \<or> oper = opNot then
         do {
           oty \<leftarrow> GetType operand;
           Some (UnaryOp_check oper (GetToken operand) oty d1)
         }
       else Some (False, (t, [Str ''the operation is not valid.'', Endl]))
     }"
| "TypeCheck (CAstSpecialOp t oper operand ty) d =
     do {
       (ok, d1) \<leftarrow> TypeCheck operand d;
       if \<not> ok then Some (False, d1)
       else if oper = opDeref then
         do {
           oty \<leftarrow> GetType operand;
           Some (Deref_check (GetToken operand) oty d1)
         }
       else Some (True, d1)
     }"
| "TypeCheck (CAstFunctionCall t symb args) d =
     (if int (length args) \<noteq> GetNParams symb then
        Some (False, (t, [Str ''the number of parameters mismatched.'', Endl,
                          Str ''signature : '', Num (GetNParams symb), Endl,
                          Str ''subroutineCall : '', Num (int (length args)), Endl]))
      else TypeCheck_args args (ParamTypes symb) d)"
| "TypeCheck (CAstDesignator t symb) d =
     (if GetDataType symb = None \<or> IsNull (the (GetDataType symb)) then
        Some (False, (t, [Str ''invalid designator type.'']))
      else Some (True, d))"
| "TypeCheck (CAstArrayDesignator t symb idx fin) d =
     (if \<not> fin then None else TypeCheck_indices idx d)"
| "TypeCheck (CAstConstant t ty v) d = Some (Constant_check t ty v d)"
| "TypeCheck (CAstStringConstant t ty symb) d =
     (if ty = None \<or> IsNull (the ty) then
        Some (False, (t, [Str ''invalid string constant type.'']))
      else Some (True, d))"
| "TypeCheck_args [] ps d = Some (True, d)"
| "TypeCheck_args (expr # es) ps d =
     (case ps of
        [] \<Rightarrow> None
      | paramType # ps' \<Rightarrow>
          do {
            (ok, d1) \<leftarrow> TypeCheck expr d;
            if \<not> ok then Some (False, d1)
            else do {
              ety \<leftarrow> GetType expr;
              if ety = None \<or> paramType = None \<or> \<not> Match (the paramType) (the ety) then
                Some (False, (GetToken expr,
                   [Str ''the type of parameters does not match '',
                    Str ''with the function/procedure's signature.'', Endl,
                    Str ''signature : ''] @ type_or_invalid paramType @
                   [Str ''subroutineCall : ''] @ type_or_invalid ety))
              else TypeCheck_args es ps' d1
            }
          })"
| "TypeCheck_indices [] d = Some (True, d)"
| "TypeCheck_indices (expr # es) d =
     do {
       (ok, d1) \<leftarrow> TypeCheck expr d;
       if \<not> ok then Some (False, d1)
       else do {
         ety \<leftarrow> GetType expr;
         if ety = None \<or> \<not> Match (the ety) CIntType then
           Some (False, (GetToken expr,
              [Str ''the element in array should be accessed by integer index.'', Endl,
               Str ''but the expression's type is ''] @ type_or_invalid ety))
         else TypeCheck_indices es d1
       }
     }"

text \<open>An assignment statement: its token, its left-hand side (a designator or an array
  designator) and its right-hand side.\<close>

datatype CAstStatAssign = CAstStatAssign CToken CAstExpression CAstExpression

fun StatAssign_TypeCheck :: "CAstStatAssign \<Rightarrow> diag \<Rightarrow> (bool \<times> diag) option" where
  "StatAssign_TypeCheck (CAstStatAssign t lhs rhs) d =
     do {
       (okl, d1) \<leftarrow> TypeCheck lhs d;
       if \<not> okl then Some (False, d1)
       else do {
         (okr, d2) \<leftarrow> TypeCheck rhs d1;
         if \<not> okr then Some (False, d2)
         else do {
           lt \<leftarrow> GetType lhs;
           if lt = None \<or> \<not> IsScalar (the lt) then
             Some (False, (GetToken lhs,
                [Str ''invalid variable type.'', Endl, Str ''LHS : ''] @ type_or_invalid lt))
           else do {
             rt \<leftarrow> GetType rhs;
             if rt = None \<or> \<not> IsScalar (the rt) then
               Some (False, (GetToken rhs,
                  [Str ''invalid value type.'', Endl, Str ''RHS : ''] @ type_or_invalid rt))
             else if \<not> Match (the lt) (the rt) then
               Some (False, (GetToken lhs,
                  [Str ''assign type mismatch.'', Endl,
                   Str ''LHS : '', Typ (the lt), Endl,
                   Str ''RHS : '', Typ (the rt), Endl]))
             else Some (True, d2)
           }
         }
       }
     }"

section \<open>Three-address code\<close>

text \<open>
  Modelled from the spec: the addresses and instructions of ir.h. A temporary is
  compiler-generated, typed and numbered; \<open>CTemp\<close> is its symbol. A constant address
  holds the integer handed to its constructor. A reference is the symbol of a temporary
  holding a computed address, tagged with the symbol it indirects. A label is numbered.
  An instruction has an operation, a destination (an address or a label) and up to two
  source addresses, each possibly NULL; a label is itself an instruction.
\<close>

datatype CTemp = CTemp nat "CType option"

datatype CTacLabel = CTacLabel nat

datatype CTacAddr =
    CTacName CSymbol
  | CTacConst int
  | CTacTemp CTemp
  | CTacReference CTemp CSymbol

datatype CTac = Addr CTacAddr | Target CTacLabel

datatype CTacInstr =
    CTacInstr EOperation "CTac option" "CTacAddr option" "CTacAddr option"
  | LabelInstr CTacLabel

text \<open>Modelled from the spec: the code block being filled: the instruction buffer, the
  counters of the temporaries and labels created so far, and the symbol table of the
  owning scope.\<close>

record CCodeBlock =
  instrs :: "CTacInstr list"
  temp_id :: nat
  label_id :: nat
  symtab :: "(string \<times> CSymbol) list"

definition AddInstr :: "CTacInstr \<Rightarrow> CCodeBlock \<Rightarrow> CCodeBlock" where
  "AddInstr i cb = cb\<lparr>instrs := instrs cb @ [i]\<rparr>"

definition CreateTemp :: "CType option \<Rightarrow> CCodeBlock \<Rightarrow> CTemp \<times> CCodeBlock" where
  "CreateTemp ty cb = (CTemp (temp_id cb) ty, cb\<lparr>temp_id := Suc (temp_id cb)\<rparr>)"

definition CreateLabel :: "CCodeBlock \<Rightarrow> CTacLabel \<times> CCodeBlock" where
  "CreateLabel cb = (CTacLabel (label_id cb), cb\<lparr>label_id := Suc (label_id cb)\<rparr>)"

definition FindSymbol :: "CCodeBlock \<Rightarrow> string \<Rightarrow> CSymbol option" where
  "FindSymbol cb name = map_of (symtab cb) name"

text \<open>\<open>dynamic_cast<const CSymProc*>\<close> of a symbol pointer.\<close>

fun as_CSymProc :: "CSymbol option \<Rightarrow> CSymProc option" where
  "as_CSymProc (Some (CSymProcedure p)) = Some p"
| "as_CSymProc (Some (CSymVar n t)) = None"
| "as_CSymProc None = None"

text \<open>\<open>new CTacInstr(opGoto, l)\<close>\<close>

definition Goto :: "CTacLabel \<Rightarrow> CTacInstr" where
  "Goto l = CTacInstr opGoto (Some (Target l)) None None"

section \<open>ToTac\<close>

text \<open>
  The weight of a node bounds the work of lowering it. An array designator lowers, besides
  its indices, the calls of DIM and DOFS that it builds, so it weighs more than those.
\<close>

fun weight :: "CAstExpression \<Rightarrow> nat" where
  "weight (CAstBinaryOp t oper l r) = Suc (weight l + weight r)"
| "weight (CAstUnaryOp t oper e) = Suc (weight e)"
| "weight (CAstSpecialOp t oper e ty) = Suc (weight e)"
| "weight (CAstFunctionCall t symb args) = Suc (sum_list (map (\<lambda>a. Suc (weight a)) args))"
| "weight (CAstDesignator t symb) = 1"
| "weight (CAstArrayDesignator t symb idx fin) = 20 + sum_list (map (\<lambda>a. Suc (weight a)) idx)"
| "weight (CAstConstant t ty v) = 1"
| "weight (CAstStringConstant t ty symb) = 1"

text \<open>Each element of a list of nodes weighs less than the list.\<close>

lemma weight_nth:
  "i < length xs \<Longrightarrow> Suc (weight (xs ! i)) \<le> sum_list (map (\<lambda>a. Suc (weight a)) xs)"
proof (induction xs arbitrary: i)
  case Nil
  then show ?case by simp
next
  case (Cons x xs)
  show ?case
  proof (cases i)
    case 0
    then show ?thesis by simp
  next
    case (Suc j)
    with Cons.prems have "j < length xs" by simp
    from Cons.IH [OF this] show ?thesis using Suc by simp
  qed
qed

text \<open>\<open>dynamic_cast<const CArrayType*>\<close> of a type pointer.\<close>

fun as_CArrayType :: "CType option \<Rightarrow> CType option" where
  "as_CArrayType None = None"
| "as_CArrayType (Some ty) = (if IsArray ty then Some ty else None)"

text \<open>The branch "referencing pointer" of \<open>CAstArrayDesignator::ToTac\<close>: the address
  \<open>id\<close> of the array, the expression \<open>idExpr\<close> handed to DIM and DOFS, and the array
  type \<open>dataType\<close> (NULL when the cast fails).\<close>

definition ArrayDesignator_base ::
  "CToken \<Rightarrow> CSymbol \<Rightarrow> CType \<Rightarrow> CCodeBlock
     \<Rightarrow> CTacAddr \<times> CAstExpression \<times> CType option \<times> CCodeBlock" where
  "ArrayDesignator_base t symb sty cb =
     (if IsPointer sty then
        (CTacName symb, CAstDesignator t symb,
         as_CArrayType (case PointerBaseType sty of None \<Rightarrow> None | Some b \<Rightarrow> b), cb)
      else
        (let (ptr, cb1) = CreateTemp (Some (CPointerType (Some sty))) cb
         in (CTacTemp ptr, CAstSpecialOp t opAddress (CAstDesignator t symb) None,
             as_CArrayType (Some sty),
             AddInstr (CTacInstr opAddress (Some (Addr (CTacTemp ptr))) (Some (CTacName symb)) None) cb1)))"

lemma ArrayDesignator_base_weight:
  "(a, idExpr, dt, cb1) = ArrayDesignator_base t symb sty cb \<Longrightarrow> weight idExpr \<le> 2"
  by (auto simp: ArrayDesignator_base_def split: if_splits prod.splits)

text \<open>
  The value form \<open>ToTac(cb)\<close> and the condition form \<open>ToTac(cb, ltrue, lfalse)\<close> of
  every expression class, with the two loops they run: the loop over the arguments of a
  call, \<open>for (int i = n - 1; i >= 0; i--)\<close>, whose counter here is \<open>i + 1\<close>, and the
  loop over the dimensions of an array designator, with its block "evaluate index" as
  \<open>ToTac_index\<close>. \<open>sz\<close> is \<open>CType::GetSize\<close>, which
  is declared outside ast.cpp. \<open>GetArg\<close> and \<open>GetIndex\<close> assert that the index is
  in range. Every override of the value form returns an address it has just allocated,
  never NULL, so the value form gives a \<open>CTacAddr\<close>; the condition form returns NULL or
  an address. A relational operation in condition form lowers its two operands as the
  arguments of one constructor call,
  \<open>new CTacInstr(oper, ltrue, left->ToTac(cb), right->ToTac(cb))\<close>. C++ leaves the
  order of their evaluation to the compiler; g++ evaluates the arguments of a call from the
  last to the first, and the model follows it: the right operand is lowered first.
\<close>

function ToTac :: "(CType \<Rightarrow> int) \<Rightarrow> CAstExpression \<Rightarrow> CCodeBlock \<Rightarrow> (CTacAddr \<times> CCodeBlock) option"
  and ToTac_cond :: "(CType \<Rightarrow> int) \<Rightarrow> CAstExpression \<Rightarrow> CTacLabel \<Rightarrow> CTacLabel \<Rightarrow> CCodeBlock
        \<Rightarrow> (CTacAddr option \<times> CCodeBlock) option"
  and ToTac_params :: "(CType \<Rightarrow> int) \<Rightarrow> CAstExpression list \<Rightarrow> nat \<Rightarrow> CCodeBlock \<Rightarrow> CCodeBlock option"
  and ToTac_index :: "(CType \<Rightarrow> int) \<Rightarrow> CAstExpression list \<Rightarrow> nat \<Rightarrow> CTacAddr option \<Rightarrow> CCodeBlock
        \<Rightarrow> (CTacAddr option \<times> CCodeBlock) option"
  and ToTac_indices :: "(CType \<Rightarrow> int) \<Rightarrow> CAstExpression list \<Rightarrow> CAstExpression \<Rightarrow> CSymProc option
        \<Rightarrow> int \<Rightarrow> nat \<Rightarrow> CTacAddr option \<Rightarrow> CCodeBlock \<Rightarrow> (CTacAddr option \<times> CCodeBlock) option"
where
  "ToTac sz (CAstBinaryOp t oper left right) cb =
     (if oper = opAdd \<or> oper = opSub \<or> oper = opMul \<or> oper = opDiv then
        do {
          (leftTac, cb1) \<leftarrow> ToTac sz left cb;
          (rightTac, cb2) \<leftarrow> ToTac sz right cb1;
          let (val, cb3) = CreateTemp (Some CIntType) cb2;
          Some (CTacTemp val,
                AddInstr (CTacInstr oper (Some (Addr (CTacTemp val))) (Some leftTac) (Some rightTac)) cb3)
        }
      else
        do {
          let (ltrue, cb1) = CreateLabel cb;
          let (lfalse, cb2) = CreateLabel cb1;
          let (lend, cb3) = CreateLabel cb2;
          (r, cb4) \<leftarrow> ToTac_cond sz (CAstBinaryOp t oper left right) ltrue lfalse cb3;
          let (val, cb5) = CreateTemp (Some CBoolType) cb4;
          Some (CTacTemp val,
                AddInstr (LabelInstr lend)
                 (AddInstr (CTacInstr opAssign (Some (Addr (CTacTemp val))) (Some (CTacConst 0)) None)
                  (AddInstr (LabelInstr lfalse)
                   (AddInstr (Goto lend)
                    (AddInstr (CTacInstr opAssign (Some (Addr (CTacTemp val))) (Some (CTacConst 1)) None)
                     (AddInstr (LabelInstr ltrue) cb5))))))
        })"
| "ToTac_cond sz (CAstBinaryOp t oper left right) ltrue lfalse cb =
     do {
       let (nextCond, cb1) = CreateLabel cb;
       if IsRelOp oper then
         do {
           (rightTac, cb2) \<leftarrow> ToTac sz right cb1;
           (leftTac, cb3) \<leftarrow> ToTac sz left cb2;
           Some (None,
                 AddInstr (Goto lfalse)
                  (AddInstr (CTacInstr oper (Some (Target ltrue)) (Some leftTac) (Some rightTac)) cb3))
         }
       else if oper = opAnd then
         do {
           (r1, cb2) \<leftarrow> ToTac_cond sz left nextCond lfalse cb1;
           (r2, cb3) \<leftarrow> ToTac_cond sz right ltrue lfalse (AddInstr (LabelInstr nextCond) cb2);
           Some (None, cb3)
         }
       else
         do {
           (r1, cb2) \<leftarrow> ToTac_cond sz left ltrue nextCond cb1;
           (r2, cb3) \<leftarrow> ToTac_cond sz right ltrue lfalse (AddInstr (LabelInstr nextCond) cb2);
           Some (None, cb3)
         }
     }"
| "ToTac sz (CAstUnaryOp t oper operand) cb =
     (if oper = opPos \<or> oper = opNeg then
        (case ConstantValue operand of
           None \<Rightarrow>
             do {
               (operandTac, cb1) \<leftarrow> ToTac sz operand cb;
               let (retval, cb2) = CreateTemp (Some CIntType) cb1;
               Some (CTacTemp retval,
                     AddInstr (CTacInstr oper (Some (Addr (CTacTemp retval))) (Some operandTac) None) cb2)
             }
         | Some v \<Rightarrow>
             Some (CTacConst (sint (if oper = opNeg then - v else v)), cb))
      else
        do {
          let (ltrue, cb1) = CreateLabel cb;
          let (lfalse, cb2) = CreateLabel cb1;
          let (lend, cb3) = CreateLabel cb2;
          (r, cb4) \<leftarrow> ToTac_cond sz (CAstUnaryOp t oper operand) ltrue lfalse cb3;
          let (retval, cb5) = CreateTemp (Some CBoolType) cb4;
          Some (CTacTemp retval,
                AddInstr (LabelInstr lend)
                 (AddInstr (CTacInstr opAssign (Some (Addr (CTacTemp retval))) (Some (CTacConst 0)) None)
                  (AddInstr (LabelInstr lfalse)
                   (AddInstr (Goto lend)
                    (AddInstr (CTacInstr opAssign (Some (Addr (CTacTemp retval))) (Some (CTacConst 1)) None)
                     (AddInstr (LabelInstr ltrue) cb5))))))
        })"
| "ToTac_cond sz (CAstUnaryOp t oper operand) ltrue lfalse cb =
     (if oper \<noteq> opNot then None
      else do {
        (r, cb1) \<leftarrow> ToTac_cond sz operand lfalse ltrue cb;
        Some (None, cb1)
      })"
| "ToTac sz (CAstSpecialOp t oper operand ty) cb =
     do {
       (src, cb1) \<leftarrow> ToTac sz operand cb;
       oty \<leftarrow> GetType operand;
       let (ret, cb2) = CreateTemp (Some (CPointerType oty)) cb1;
       Some (CTacTemp ret,
             AddInstr (CTacInstr opAddress (Some (Addr (CTacTemp ret))) (Some src) None) cb2)
     }"
| "ToTac_cond sz (CAstSpecialOp t oper operand ty) ltrue lfalse cb = Some (None, cb)"
| "ToTac sz (CAstFunctionCall t symb args) cb =
     do {
       cb1 \<leftarrow> ToTac_params sz args (length args) cb;
       let (retval, cb2) = CreateTemp (ProcDataType symb) cb1;
       Some (CTacTemp retval,
             AddInstr (CTacInstr opCall (Some (Addr (CTacTemp retval)))
                         (Some (CTacName (CSymProcedure symb))) None) cb2)
     }"
| "ToTac_cond sz (CAstFunctionCall t symb args) ltrue lfalse cb =
     do {
       (retval, cb1) \<leftarrow> ToTac sz (CAstFunctionCall t symb args) cb;
       Some (None,
             AddInstr (Goto lfalse)
              (AddInstr (CTacInstr opEqual (Some (Target ltrue)) (Some retval) (Some (CTacConst 1))) cb1))
     }"
| "ToTac sz (CAstDesignator t symb) cb = Some (CTacName symb, cb)"
| "ToTac_cond sz (CAstDesignator t symb) ltrue lfalse cb =
     do {
       (a, cb1) \<leftarrow> ToTac sz (CAstDesignator t symb) cb;
       Some (None,
             AddInstr (Goto lfalse)
              (AddInstr (CTacInstr opEqual (Some (Target ltrue)) (Some a) (Some (CTacConst 1))) cb1))
     }"
| "ToTac sz (CAstArrayDesignator t symb idx fin) cb =
     (let DIM_SYM = FindSymbol cb ''DIM'';
          DOFS_SYM = FindSymbol cb ''DOFS''
      in case GetDataType symb of
           None \<Rightarrow> None
         | Some sty \<Rightarrow>
             (case ArrayDesignator_base t symb sty cb of
                (idTac, idExpr, dataTypeP, cb1) \<Rightarrow>
                  do {
                    dataType \<leftarrow> dataTypeP;
                    base \<leftarrow> ArrayBaseType dataType;
                    let dataSize = sz base;
                    iterateCount \<leftarrow> GetNDim dataType;
                    (idxv, cb2) \<leftarrow>
                       ToTac_indices sz idx idExpr (as_CSymProc DIM_SYM) iterateCount 0 None cb1;
                    let (tmp, cb3) = CreateTemp (Some CIntType) cb2;
                    let cb4 = AddInstr (CTacInstr opMul (Some (Addr (CTacTemp tmp))) idxv
                                          (Some (CTacConst dataSize))) cb3;
                    dofs \<leftarrow> as_CSymProc DOFS_SYM;
                    (ofs, cb5) \<leftarrow> ToTac sz (CAstFunctionCall CToken_default dofs [idExpr]) cb4;
                    let (tmp2, cb6) = CreateTemp (Some CIntType) cb5;
                    let cb7 = AddInstr (CTacInstr opAdd (Some (Addr (CTacTemp tmp2)))
                                          (Some (CTacTemp tmp)) (Some ofs)) cb6;
                    let (tmp3, cb8) = CreateTemp (Some CIntType) cb7;
                    let cb9 = AddInstr (CTacInstr opAdd (Some (Addr (CTacTemp tmp3)))
                                          (Some idTac) (Some (CTacTemp tmp2))) cb8;
                    Some (CTacReference tmp3 symb, cb9)
                  }))"
| "ToTac_cond sz (CAstArrayDesignator t symb idx fin) ltrue lfalse cb =
     do {
       (ret, cb1) \<leftarrow> ToTac sz (CAstArrayDesignator t symb idx fin) cb;
       Some (Some ret,
             AddInstr (Goto lfalse)
              (AddInstr (CTacInstr opEqual (Some (Target ltrue)) (Some ret) (Some (CTacConst 1))) cb1))
     }"
| "ToTac sz (CAstConstant t ty v) cb = Some (CTacConst (sint v), cb)"
| "ToTac_cond sz (CAstConstant t ty v) ltrue lfalse cb =
     (if v \<noteq> 0 then Some (Some (CTacConst (sint v)), AddInstr (Goto ltrue) cb)
      else Some (Some (CTacConst (sint v)), AddInstr (Goto lfalse) cb))"
| "ToTac sz (CAstStringConstant t ty symb) cb = Some (CTacName symb, cb)"
| "ToTac_cond sz (CAstStringConstant t ty symb) ltrue lfalse cb = Some (Some (CTacName symb), cb)"
| "ToTac_params sz args 0 cb = Some cb"
| "ToTac_params sz args (Suc i) cb =
     (if i < length args then
        do {
          (argTac, cb1) \<leftarrow> ToTac sz (args ! i) cb;
          ToTac_params sz args i
            (AddInstr (CTacInstr opParam (Some (Addr (CTacConst (int i)))) (Some argTac) None) cb1)
        }
      else None)"
| "ToTac_index sz idx i cur cb =
     (case cur of
        None \<Rightarrow>
          (if i < length idx then
             do { (a, c) \<leftarrow> ToTac sz (idx ! i) cb; Some (Some a, c) }
           else None)
      | Some idxv \<Rightarrow>
          do {
            (prev, c1) \<leftarrow>
               (if i < length idx then ToTac sz (idx ! i) cb
                else Some (CTacConst 0, cb));
            let (next, c2) = CreateTemp (Some CIntType) c1;
            Some (Some (CTacTemp next),
                  AddInstr (CTacInstr opAdd (Some (Addr (CTacTemp next))) (Some idxv) (Some prev)) c2)
          })"
| "ToTac_indices sz idx idExpr DIM_SYM iterateCount i cur cb =
     (if int i < iterateCount then
        do {
          (cur1, cb1) \<leftarrow> ToTac_index sz idx i cur cb;
          if int i = iterateCount - 1 then Some (cur1, cb1)
          else do {
            dim \<leftarrow> DIM_SYM;
            (entrySize, cb2) \<leftarrow>
               ToTac sz (CAstFunctionCall CToken_default dim
                           [idExpr, CAstConstant CToken_default (Some CIntType) (word_of_nat (i + 2))]) cb1;
            let (next, cb3) = CreateTemp (Some CIntType) cb2;
            ToTac_indices sz idx idExpr DIM_SYM iterateCount (Suc i) (Some (CTacTemp next))
              (AddInstr (CTacInstr opMul (Some (Addr (CTacTemp next))) cur1 (Some entrySize)) cb3)
          }
        }
      else Some (cur, cb))"
  by pat_completeness auto


termination
  apply (relation "measures
    [\<lambda>x. case x of
        Inl (Inl (sz, e, cb)) \<Rightarrow>
          3 * weight e + (case e of CAstBinaryOp t oper l r \<Rightarrow> 1 | CAstUnaryOp t oper e \<Rightarrow> 1 | _ \<Rightarrow> 0)
      | Inl (Inr (sz, e, lt, lf, cb)) \<Rightarrow>
          3 * weight e + (case e of CAstFunctionCall t s args \<Rightarrow> 1 | CAstDesignator t s \<Rightarrow> 1
                            | CAstArrayDesignator t s idx fin \<Rightarrow> 1 | _ \<Rightarrow> 0)
      | Inr (Inl (sz, args, k, cb)) \<Rightarrow> 3 * sum_list (map (\<lambda>a. Suc (weight a)) args) + 2
      | Inr (Inr (Inl (sz, idx, i, cur, cb))) \<Rightarrow> 3 * sum_list (map (\<lambda>a. Suc (weight a)) idx) + 2
      | Inr (Inr (Inr (sz, idx, idExpr, dimsym, n, i, cur, cb))) \<Rightarrow>
          3 * (10 + weight idExpr + sum_list (map (\<lambda>a. Suc (weight a)) idx)),
     \<lambda>x. case x of
        Inr (Inl (sz, args, k, cb)) \<Rightarrow> k
      | Inr (Inr (Inr (sz, idx, idExpr, dimsym, n, i, cur, cb))) \<Rightarrow> nat (n - int i)
      | _ \<Rightarrow> 0]")
  apply (auto dest: weight_nth ArrayDesignator_base_weight split: CAstExpression.splits)
  done

text \<open>A call statement: its token and the token, the symbol and the arguments of the
  call node it owns.\<close>

datatype CAstStatCall = CAstStatCall CToken CToken CSymProc "CAstExpression list"

fun StatCall_ToTac ::
  "(CType \<Rightarrow> int) \<Rightarrow> CAstStatCall \<Rightarrow> CTacLabel \<Rightarrow> CCodeBlock \<Rightarrow> (CTacAddr option \<times> CCodeBlock) option" where
  "StatCall_ToTac sz (CAstStatCall t ct symb args) next cb =
     do {
       cb1 \<leftarrow> ToTac_params sz args (length args) cb;
       let (tmp, cb2) =
             (if ProcDataType symb \<noteq> Some CNullType then
                (let (tp, c) = CreateTemp (ProcDataType symb) cb1 in (Some (Addr (CTacTemp tp)), c))
              else (None, cb1));
       Some (None,
             AddInstr (Goto next)
              (AddInstr (CTacInstr opCall tmp (Some (CTacName (CSymProcedure symb))) None) cb2))
     }"

section \<open>Notions used to state the properties\<close>

text \<open>The type left after \<open>k\<close> indexing steps, in the words of the specification: the
  array type of the remaining dimensions, that is the type without its \<open>k\<close> outermost
  dimensions.\<close>

fun remaining_dims :: "nat \<Rightarrow> CType \<Rightarrow> CType" where
  "remaining_dims 0 ty = ty"
| "remaining_dims (Suc k) (CArrayType n t) = remaining_dims k t"
| "remaining_dims (Suc k) CNullType = CNullType"
| "remaining_dims (Suc k) CIntType = CIntType"
| "remaining_dims (Suc k) CCharType = CCharType"
| "remaining_dims (Suc k) CBoolType = CBoolType"
| "remaining_dims (Suc k) (CPointerType b) = CPointerType b"

text \<open>The arguments of a call in the words of the specification: for each pair of an
  index and an argument, in the order of the list, lower the argument to a value and emit
  one \<open>param\<close> instruction with that index.\<close>

fun lower_args :: "(CType \<Rightarrow> int) \<Rightarrow> (nat \<times> CAstExpression) list \<Rightarrow> CCodeBlock \<Rightarrow> CCodeBlock option" where
  "lower_args sz [] cb = Some cb"
| "lower_args sz ((i, arg) # rest) cb =
     do {
       (argTac, cb1) \<leftarrow> ToTac sz arg cb;
       lower_args sz rest
         (AddInstr (CTacInstr opParam (Some (Addr (CTacConst (int i)))) (Some argTac) None) cb1)
     }"

text \<open>
  The address computation in the words of the specification. \<open>offset_dims\<close> treats the
  dimensions after the first: for the dimension numbered \<open>d\<close> (counting from 1) it calls
  DIM with the array and \<open>d\<close>, multiplies the accumulated index by the result and adds
  the index expression of that dimension, or the constant 0 when fewer than \<open>d\<close> indices
  are supplied.
\<close>

fun offset_dims ::
  "(CType \<Rightarrow> int) \<Rightarrow> CAstExpression list \<Rightarrow> CAstExpression \<Rightarrow> CSymProc option \<Rightarrow> nat \<Rightarrow> nat
     \<Rightarrow> CTacAddr \<Rightarrow> CCodeBlock \<Rightarrow> (CTacAddr \<times> CCodeBlock) option" where
  "offset_dims sz idx idExpr DIM 0 d acc cb = Some (acc, cb)"
| "offset_dims sz idx idExpr DIM (Suc rest) d acc cb =
     do {
       dim \<leftarrow> DIM;
       (extent, cb1) \<leftarrow>
          ToTac sz (CAstFunctionCall CToken_default dim
                      [idExpr, CAstConstant CToken_default (Some CIntType) (word_of_nat d)]) cb;
       let (pr, cb2) = CreateTemp (Some CIntType) cb1;
       let cb3 = AddInstr (CTacInstr opMul (Some (Addr (CTacTemp pr))) (Some acc) (Some extent)) cb2;
       (ix, cb4) \<leftarrow> (if d \<le> length idx then ToTac sz (idx ! (d - 1)) cb3
                     else Some (CTacConst 0, cb3));
       let (sm, cb5) = CreateTemp (Some CIntType) cb4;
       offset_dims sz idx idExpr DIM rest (Suc d) (CTacTemp sm)
         (AddInstr (CTacInstr opAdd (Some (Addr (CTacTemp sm))) (Some (CTacTemp pr)) (Some ix)) cb5)
     }"

text \<open>The array type a designator's symbol stands for: the type of the symbol when it is
  an array, the type pointed to when it is a pointer to an array.\<close>

fun array_of :: "CType \<Rightarrow> CType option" where
  "array_of (CArrayType n e) = Some (CArrayType n e)"
| "array_of (CPointerType (Some (CArrayType n e))) = Some (CArrayType n e)"
| "array_of (CPointerType (Some CNullType)) = None"
| "array_of (CPointerType (Some CIntType)) = None"
| "array_of (CPointerType (Some CCharType)) = None"
| "array_of (CPointerType (Some CBoolType)) = None"
| "array_of (CPointerType (Some (CPointerType b))) = None"
| "array_of (CPointerType None) = None"
| "array_of CNullType = None"
| "array_of CIntType = None"
| "array_of CCharType = None"
| "array_of CBoolType = None"

text \<open>
  Start from the first index; treat the remaining dimensions; multiply by the size of the
  element type; add the result of DOFS; add the base address, which is the symbol itself
  when it is a pointer and otherwise a temporary that receives the address of the symbol;
  return a reference: the temporary holding the sum, tagged with the symbol.
\<close>

definition ArrayDesignator_spec ::
  "(CType \<Rightarrow> int) \<Rightarrow> CToken \<Rightarrow> CSymbol \<Rightarrow> CAstExpression list \<Rightarrow> CCodeBlock
     \<Rightarrow> (CTacAddr \<times> CCodeBlock) option" where
  "ArrayDesignator_spec sz t symb idx cb =
     do {
       sty \<leftarrow> GetDataType symb;
       arr \<leftarrow> array_of sty;
       first \<leftarrow> (case idx of [] \<Rightarrow> None | x # xs \<Rightarrow> Some x);
       let (base, idExpr, cb1) =
             (if IsPointer sty then (CTacName symb, CAstDesignator t symb, cb)
              else
                (let (ptr, c) = CreateTemp (Some (CPointerType (Some sty))) cb
                 in (CTacTemp ptr, CAstSpecialOp t opAddress (CAstDesignator t symb) None,
                     AddInstr (CTacInstr opAddress (Some (Addr (CTacTemp ptr))) (Some (CTacName symb)) None) c)));
       (i1, cb2) \<leftarrow> ToTac sz first cb1;
       (off, cb3) \<leftarrow> offset_dims sz idx idExpr (as_CSymProc (FindSymbol cb ''DIM''))
                        (nat (NDim arr) - 1) 2 i1 cb2;
       let (scaled, cb4) = CreateTemp (Some CIntType) cb3;
       let cb5 = AddInstr (CTacInstr opMul (Some (Addr (CTacTemp scaled))) (Some off)
                             (Some (CTacConst (sz (BaseOf arr))))) cb4;
       dofs \<leftarrow> as_CSymProc (FindSymbol cb ''DOFS'');
       (ofs, cb6) \<leftarrow> ToTac sz (CAstFunctionCall CToken_default dofs [idExpr]) cb5;
       let (rel, cb7) = CreateTemp (Some CIntType) cb6;
       let cb8 = AddInstr (CTacInstr opAdd (Some (Addr (CTacTemp rel))) (Some (CTacTemp scaled)) (Some ofs)) cb7;
       let (addr, cb9) = CreateTemp (Some CIntType) cb8;
       Some (CTacReference addr symb,
             AddInstr (CTacInstr opAdd (Some (Addr (CTacTemp addr))) (Some base) (Some (CTacTemp rel))) cb9)
     }"

text \<open>
  \<open>ext m cb cb'\<close>: the code block \<open>cb'\<close> continues \<open>cb\<close>. Its instructions are
  those of \<open>cb\<close> followed by new ones, every label placed among the new ones has a number
  of at least \<open>m\<close>, the counters of labels and temporaries have not decreased and the
  symbol table is the same.
\<close>

definition ext :: "nat \<Rightarrow> CCodeBlock \<Rightarrow> CCodeBlock \<Rightarrow> bool" where
  "ext m cb cb' \<longleftrightarrow>
     (\<exists>code. instrs cb' = instrs cb @ code \<and> (\<forall>k. LabelInstr (CTacLabel k) \<in> set code \<longrightarrow> m \<le> k))
     \<and> label_id cb \<le> label_id cb' \<and> temp_id cb \<le> temp_id cb' \<and> symtab cb' = symtab cb"

text \<open>
  \<open>jt m L cb cb'\<close>: moreover every new instruction whose destination is a label jumps
  to a label of \<open>L\<close> or to a label numbered from \<open>m\<close> up to the label counter of
  \<open>cb'\<close>, that is to a label created in between.
\<close>

definition jt :: "nat \<Rightarrow> CTacLabel set \<Rightarrow> CCodeBlock \<Rightarrow> CCodeBlock \<Rightarrow> bool" where
  "jt m L cb cb' \<longleftrightarrow>
     (\<exists>code. instrs cb' = instrs cb @ code
        \<and> (\<forall>k. LabelInstr (CTacLabel k) \<in> set code \<longrightarrow> m \<le> k)
        \<and> (\<forall>oper l s1 s2. CTacInstr oper (Some (Target l)) s1 s2 \<in> set code \<longrightarrow>
              l \<in> L \<or> (\<exists>k. l = CTacLabel k \<and> m \<le> k \<and> k < label_id cb')))
     \<and> label_id cb \<le> label_id cb' \<and> temp_id cb \<le> temp_id cb' \<and> symtab cb' = symtab cb"






section \<open>Properties of type checking\<close>

text \<open>
  C4: an integer literal constant of value 2^31 (2147483648) fails its own type check,
  with the message "invalid number."; as the immediate operand of a unary minus the
  failure of the operand is suppressed and the unary expression type-checks. The token
  and the message of the operand's failure have been written through the two pointers
  all the same.
\<close>

theorem C4_min_int_literal:
  "TypeCheck (CAstConstant ct (Some CIntType) 2147483648) d =
     Some (False, (ct, [Str ''invalid number. ('', Num 2147483648, Str '')'', Endl]))
   \<and> TypeCheck (CAstUnaryOp ut opNeg (CAstConstant ct (Some CIntType) 2147483648)) d =
     Some (True, (ct, [Str ''invalid number. ('', Num 2147483648, Str '')'', Endl]))"
  by (simp add: Constant_check_def)

theorem C4_min_int_literal_witness:
  "TypeCheck (CAstConstant (CToken 3 7) (Some CIntType) 2147483648) (CToken 0 0, []) =
     Some (False, (CToken 3 7, [Str ''invalid number. ('', Num 2147483648, Str '')'', Endl]))
   \<and> TypeCheck (CAstUnaryOp (CToken 3 6) opNeg (CAstConstant (CToken 3 7) (Some CIntType) 2147483648))
        (CToken 0 0, []) =
     Some (True, (CToken 3 7, [Str ''invalid number. ('', Num 2147483648, Str '')'', Endl]))"
  using C4_min_int_literal [of "CToken 3 7" "(CToken 0 0, [])" "CToken 3 6"] by simp



text \<open>
  C8: for a binary operation whose operands pass their own type check and have matching
  scalar types that are not pointers: when the type matches boolean, each of the four
  ordering operations (less than, less or equal, bigger than, bigger or equal) fails the
  type check, at the token of the left operand; equality and inequality pass the type
  check for every such pair of types.
\<close>

theorem C8_relational_boolean:
  assumes "TypeCheck lhs d = Some (True, d1)" and "TypeCheck rhs d1 = Some (True, d2)"
    and "GetType lhs = Some (Some lt)" and "GetType rhs = Some (Some rt)"
    and "IsScalar lt" and "IsScalar rt" and "\<not> IsPointer lt" and "\<not> IsPointer rt"
    and "Match lt rt"
  shows "(Match lt CBoolType \<and>
          (oper = opLessThan \<or> oper = opLessEqual \<or> oper = opBiggerThan \<or> oper = opBiggerEqual) \<longrightarrow>
            TypeCheck (CAstBinaryOp t oper lhs rhs) d =
              Some (False, (GetToken lhs,
                 [Str ''the type of operands cannot be boolean type '',
                  Str ''in '', Str ''this'', Str '' operation.'', Endl,
                  Str ''left operand : '', Typ lt, Endl,
                  Str ''right operand : '', Typ rt, Endl])))
       \<and> (oper = opEqual \<or> oper = opNotEqual \<longrightarrow>
            TypeCheck (CAstBinaryOp t oper lhs rhs) d = Some (True, d2))"
  using assms by (auto simp: BinaryOp_check_def)

theorem C8_relational_boolean_witness:
  "TypeCheck (CAstBinaryOp (CToken 1 6) opLessThan
       (CAstConstant (CToken 1 1) (Some CBoolType) 1)
       (CAstConstant (CToken 1 8) (Some CBoolType) 0)) (CToken 0 0, []) =
     Some (False, (CToken 1 1,
        [Str ''the type of operands cannot be boolean type '',
         Str ''in '', Str ''this'', Str '' operation.'', Endl,
         Str ''left operand : '', Typ CBoolType, Endl,
         Str ''right operand : '', Typ CBoolType, Endl]))
   \<and> TypeCheck (CAstBinaryOp (CToken 1 6) opEqual
       (CAstConstant (CToken 1 1) (Some CBoolType) 1)
       (CAstConstant (CToken 1 8) (Some CBoolType) 0)) (CToken 0 0, []) =
     Some (True, (CToken 0 0, []))"
  using C8_relational_boolean [of "CAstConstant (CToken 1 1) (Some CBoolType) 1"
     "(CToken 0 0, [])" "(CToken 0 0, [])" "CAstConstant (CToken 1 8) (Some CBoolType) 0"
     "(CToken 0 0, [])" CBoolType CBoolType opLessThan "CToken 1 6"]
    C8_relational_boolean [of "CAstConstant (CToken 1 1) (Some CBoolType) 1"
     "(CToken 0 0, [])" "(CToken 0 0, [])" "CAstConstant (CToken 1 8) (Some CBoolType) 0"
     "(CToken 0 0, [])" CBoolType CBoolType opEqual "CToken 1 6"]
  by (simp add: Constant_check_def Match_def)

lemma NDim_nonneg: "0 \<le> NDim ty"
  by (induction ty) auto

lemma NDim_pos_iff: "0 < NDim ty \<longleftrightarrow> IsArray ty"
  using NDim_nonneg by (cases ty) (auto simp: add_pos_nonneg)

lemma GetType_strip_remaining:
  "int k \<le> NDim ty \<Longrightarrow> GetType_strip k ty = Some (remaining_dims k ty)"
proof (induction k arbitrary: ty)
  case 0
  then show ?case by simp
next
  case (Suc k)
  then show ?case by (cases ty) auto
qed

lemma NDim_remaining_dims:
  "int k \<le> NDim ty \<Longrightarrow> NDim (remaining_dims k ty) = NDim ty - int k"
proof (induction k arbitrary: ty)
  case 0
  then show ?case by simp
next
  case (Suc k)
  then show ?case by (cases ty) auto
qed

lemma ArrayDesignator_GetType_eq:
  assumes "GetDataType symb = Some sty" and "sty \<noteq> CPointerType None"
  shows "ArrayDesignator_GetType symb k =
           (case array_of sty of
              None \<Rightarrow> Some None
            | Some arr \<Rightarrow> if NDim arr < int k then Some None else Some (GetType_strip k arr))"
  using assms by (cases sty rule: array_of.cases) (auto simp: ArrayDesignator_GetType_def)

lemma array_of_IsArray: "array_of sty = Some arr \<Longrightarrow> IsArray arr"
  by (cases sty rule: array_of.cases) auto

text \<open>
  The verdict of a type check, and whether it returns at all, do not depend on the token
  and the message it is handed; they are only overwritten.
\<close>

lemma BinaryOp_check_fst:
  "fst (BinaryOp_check t oper lt rt l r d) = fst (BinaryOp_check t oper lt rt l r d')"
  by (simp add: BinaryOp_check_def)

lemma UnaryOp_check_fst: "fst (UnaryOp_check oper t ty d) = fst (UnaryOp_check oper t ty d')"
  by (simp add: UnaryOp_check_def)

lemma Deref_check_fst: "fst (Deref_check t ty d) = fst (Deref_check t ty d')"
  by (simp add: Deref_check_def)

lemma Constant_check_fst: "fst (Constant_check t ty v d) = fst (Constant_check t ty v d')"
  by (simp add: Constant_check_def)

lemma TypeCheck_verdict:
  "TypeCheck e d = Some (b, d1) \<Longrightarrow> \<exists>d1'. TypeCheck e d' = Some (b, d1')"
  "TypeCheck_args es ps d = Some (b, d1) \<Longrightarrow> \<exists>d1'. TypeCheck_args es ps d' = Some (b, d1')"
  "TypeCheck_indices es d = Some (b, d1) \<Longrightarrow> \<exists>d1'. TypeCheck_indices es d' = Some (b, d1')"
proof (induction e d and es ps d and es d arbitrary: b d1 d' and b d1 d' and b d1 d'
    rule: TypeCheck_TypeCheck_args_TypeCheck_indices.induct)
  case (1 t oper lhs rhs d)
  from "1.prems" obtain okl x where l: "TypeCheck lhs d = Some (okl, x)"
    by (auto split: bind_splits)
  from "1.IH"(1) [OF l] obtain x' where l': "TypeCheck lhs d' = Some (okl, x')" by blast
  show ?case
  proof (cases okl)
    case False
    then show ?thesis using "1.prems" l l' by auto
  next
    case True
    from "1.prems" l True obtain okr y where r: "TypeCheck rhs x = Some (okr, y)"
      by (auto split: bind_splits)
    from "1.IH"(2) [OF l refl _ r] True obtain y' where r': "TypeCheck rhs x' = Some (okr, y')"
      by blast
    show ?thesis
    proof (cases okr)
      case False
      then show ?thesis using "1.prems" l l' r r' True by auto
    next
      case okr: True
      from "1.prems" l r True okr obtain lt rt where
        g: "GetType lhs = Some lt" "GetType rhs = Some rt"
        and res: "BinaryOp_check t oper (GetToken lhs) (GetToken rhs) lt rt y = (b, d1)"
        by (auto simp del: GetType.simps split: bind_splits)
      from res have "fst (BinaryOp_check t oper (GetToken lhs) (GetToken rhs) lt rt y') = b"
        using BinaryOp_check_fst [of t oper "GetToken lhs" "GetToken rhs" lt rt y y'] by simp
      then obtain z where "BinaryOp_check t oper (GetToken lhs) (GetToken rhs) lt rt y' = (b, z)"
        by (cases "BinaryOp_check t oper (GetToken lhs) (GetToken rhs) lt rt y'") auto
      then show ?thesis using l' r' True okr g by (simp del: GetType.simps)
    qed
  qed
next
  case (2 t oper operand d)
  from "2.prems" obtain ok x where l: "TypeCheck operand d = Some (ok, x)"
    by (auto split: bind_splits)
  from "2.IH" [OF l] obtain x' where l': "TypeCheck operand d' = Some (ok, x')" by blast
  show ?case
  proof (cases "ok \<and> (oper = opNeg \<or> oper = opPos \<or> oper = opNot)")
    case False
    then show ?thesis using "2.prems" l l' by (auto split: if_splits)
  next
    case True
    with "2.prems" l obtain oty where g: "GetType operand = Some oty"
      and res: "UnaryOp_check oper (GetToken operand) oty x = (b, d1)"
      by (auto simp del: GetType.simps split: bind_splits if_splits)
    from res have "fst (UnaryOp_check oper (GetToken operand) oty x') = b"
      using UnaryOp_check_fst [of oper "GetToken operand" oty x x'] by simp
    then obtain z where "UnaryOp_check oper (GetToken operand) oty x' = (b, z)"
      by (cases "UnaryOp_check oper (GetToken operand) oty x'") auto
    then show ?thesis using l' True g by (simp del: GetType.simps)
  qed
next
  case (3 t oper operand ty d)
  from "3.prems" obtain ok x where l: "TypeCheck operand d = Some (ok, x)"
    by (auto split: bind_splits)
  from "3.IH" [OF l] obtain x' where l': "TypeCheck operand d' = Some (ok, x')" by blast
  show ?case
  proof (cases "ok \<and> oper = opDeref")
    case False
    then show ?thesis using "3.prems" l l' by (auto split: if_splits)
  next
    case True
    with "3.prems" l obtain oty where g: "GetType operand = Some oty"
      and res: "Deref_check (GetToken operand) oty x = (b, d1)"
      by (auto simp del: GetType.simps split: bind_splits if_splits)
    from res have "fst (Deref_check (GetToken operand) oty x') = b"
      using Deref_check_fst [of "GetToken operand" oty x x'] by simp
    then obtain z where "Deref_check (GetToken operand) oty x' = (b, z)"
      by (cases "Deref_check (GetToken operand) oty x'") auto
    then show ?thesis using l' True g by (simp del: GetType.simps)
  qed
next
  case (4 t symb args d)
  show ?case
  proof (cases "int (length args) \<noteq> GetNParams symb")
    case True
    then show ?thesis using "4.prems" by auto
  next
    case False
    with "4.prems" have "TypeCheck_args args (ParamTypes symb) d = Some (b, d1)" by simp
    from "4.IH" [OF _ this] False show ?thesis by simp
  qed
next
  case (5 t symb d)
  then show ?case by (auto split: if_splits)
next
  case (6 t symb idx fin d)
  show ?case
  proof (cases fin)
    case False
    then show ?thesis using "6.prems" by simp
  next
    case True
    with "6.prems" have "TypeCheck_indices idx d = Some (b, d1)" by simp
    from "6.IH" [OF _ this] True show ?thesis by simp
  qed
next
  case (7 t ty v d)
  from "7.prems" have "fst (Constant_check t ty v d') = b"
    using Constant_check_fst [of t ty v d d'] by auto
  then show ?case by (cases "Constant_check t ty v d'") auto
next
  case (8 t ty symb d)
  then show ?case by (auto split: if_splits)
next
  case (9 ps d)
  then show ?case by simp
next
  case (10 expr es ps d)
  from "10.prems" obtain p ps' where ps: "ps = p # ps'" by (cases ps) auto
  from "10.prems" ps obtain ok x where l: "TypeCheck expr d = Some (ok, x)"
    by (auto split: bind_splits)
  from "10.IH"(1) [OF ps l] obtain x' where l': "TypeCheck expr d' = Some (ok, x')" by blast
  show ?case
  proof (cases ok)
    case False
    then show ?thesis using "10.prems" ps l l' by auto
  next
    case True
    from "10.prems" ps l True obtain ety where g: "GetType expr = Some ety"
      by (auto simp del: GetType.simps split: bind_splits)
    show ?thesis
    proof (cases "ety = None \<or> p = None \<or> \<not> Match (the p) (the ety)")
      case bad: True
      then show ?thesis using "10.prems" ps l l' True g by (auto simp del: GetType.simps)
    next
      case good: False
      with "10.prems" ps l True g have "TypeCheck_args es ps' x = Some (b, d1)"
        by (auto simp del: GetType.simps)
      from "10.IH"(2) [OF ps l refl _ g good this] True
      obtain z where "TypeCheck_args es ps' x' = Some (b, z)" by blast
      then show ?thesis using ps l' True g good by (auto simp del: GetType.simps)
    qed
  qed
next
  case (11 d)
  then show ?case by simp
next
  case (12 expr es d)
  from "12.prems" obtain ok x where l: "TypeCheck expr d = Some (ok, x)"
    by (auto split: bind_splits)
  from "12.IH"(1) [OF l] obtain x' where l': "TypeCheck expr d' = Some (ok, x')" by blast
  show ?case
  proof (cases ok)
    case False
    then show ?thesis using "12.prems" l l' by auto
  next
    case True
    from "12.prems" l True obtain ety where g: "GetType expr = Some ety"
      by (auto simp del: GetType.simps split: bind_splits)
    show ?thesis
    proof (cases "ety = None \<or> \<not> Match (the ety) CIntType")
      case bad: True
      then show ?thesis using "12.prems" l l' True g by (auto simp del: GetType.simps)
    next
      case good: False
      with "12.prems" l True g have "TypeCheck_indices es x = Some (b, d1)"
        by (auto simp del: GetType.simps)
      from "12.IH"(2) [OF l refl _ g good this] True
      obtain z where "TypeCheck_indices es x' = Some (b, z)" by blast
      then show ?thesis using l' True g good by (auto simp del: GetType.simps)
    qed
  qed
qed

text \<open>
  The loop over the indices of an array designator accepts exactly when each index
  expression passes its own type check and has a type that matches the integer type.
\<close>

lemma TypeCheck_indices_accepted:
  "TypeCheck_indices es d = Some (True, d') \<Longrightarrow> e \<in> set es \<Longrightarrow>
   (\<exists>d0 d1. TypeCheck e d0 = Some (True, d1)) \<and> (\<exists>ty. GetType e = Some (Some ty) \<and> Match ty CIntType)"
proof (induction es arbitrary: d)
  case Nil
  then show ?case by simp
next
  case (Cons x es)
  from Cons.prems(1) obtain d1 ety where
    x: "TypeCheck x d = Some (True, d1)" and g: "GetType x = Some ety"
    and ok: "\<not> (ety = None \<or> \<not> Match (the ety) CIntType)"
    and rest: "TypeCheck_indices es d1 = Some (True, d')"
    by (auto simp del: GetType.simps split: bind_splits if_splits)
  show ?case
  proof (cases "e = x")
    case True
    from ok obtain ty where "ety = Some ty" "Match ty CIntType" by auto
    with x g True show ?thesis by blast
  next
    case False
    with Cons.prems(2) have "e \<in> set es" by simp
    from Cons.IH [OF rest this] show ?thesis .
  qed
qed

lemma TypeCheck_indices_accepts:
  "(\<And>e. e \<in> set es \<Longrightarrow>
      (\<exists>d0 d1. TypeCheck e d0 = Some (True, d1)) \<and> (\<exists>ty. GetType e = Some (Some ty) \<and> Match ty CIntType))
   \<Longrightarrow> \<exists>d'. TypeCheck_indices es d = Some (True, d')"
proof (induction es arbitrary: d)
  case Nil
  then show ?case by simp
next
  case (Cons x es)
  from Cons.prems [of x] obtain d0 d1 ty where
    x0: "TypeCheck x d0 = Some (True, d1)" and g: "GetType x = Some (Some ty)"
    and m: "Match ty CIntType"
    by auto
  from TypeCheck_verdict(1) [OF x0] obtain dx where x: "TypeCheck x d = Some (True, dx)"
    by blast
  have "\<exists>d'. TypeCheck_indices es dx = Some (True, d')"
  proof (rule Cons.IH)
    fix e
    assume "e \<in> set es"
    then have "e \<in> set (x # es)" by simp
    from Cons.prems [OF this]
    show "(\<exists>d0 d1. TypeCheck e d0 = Some (True, d1))
          \<and> (\<exists>ty. GetType e = Some (Some ty) \<and> Match ty CIntType)" .
  qed
  then show ?case using x g m by (simp del: GetType.simps)
qed

text \<open>
  An expression whose type is NULL is refused by the node that holds it: an assignment,
  a binary or unary operation, a dereference, a call, an array designator.
\<close>

lemma null_type_assign_lhs:
  "GetType e = Some None \<Longrightarrow> StatAssign_TypeCheck (CAstStatAssign st e rhs) d = Some r \<Longrightarrow> \<not> fst r"
  by (auto simp del: GetType.simps split: bind_splits if_splits)

lemma null_type_assign_lhs_message:
  "GetType e = Some None \<Longrightarrow> TypeCheck e d = Some (True, d1) \<Longrightarrow> TypeCheck rhs d1 = Some (True, d2) \<Longrightarrow>
   StatAssign_TypeCheck (CAstStatAssign st e rhs) d =
     Some (False, (GetToken e, [Str ''invalid variable type.'', Endl, Str ''LHS : '', Str ''<INVALID>'', Endl]))"
  by (simp del: GetType.simps)

lemma null_type_assign_rhs:
  "GetType e = Some None \<Longrightarrow> StatAssign_TypeCheck (CAstStatAssign st lhs e) d = Some r \<Longrightarrow> \<not> fst r"
  by (auto simp del: GetType.simps split: bind_splits if_splits)

lemma BinaryOp_check_null:
  "lt = None \<or> rt = None \<Longrightarrow> \<not> fst (BinaryOp_check t oper ltok rtok lt rt d)"
  by (auto simp: BinaryOp_check_def)

lemma null_type_binary_left:
  "GetType e = Some None \<Longrightarrow> TypeCheck (CAstBinaryOp t oper e x) d = Some r \<Longrightarrow> \<not> fst r"
  by (auto simp: BinaryOp_check_null simp del: GetType.simps split: bind_splits if_splits)

lemma null_type_binary_right:
  "GetType e = Some None \<Longrightarrow> TypeCheck (CAstBinaryOp t oper x e) d = Some r \<Longrightarrow> \<not> fst r"
  by (auto simp: BinaryOp_check_null simp del: GetType.simps split: bind_splits if_splits)

lemma null_type_unary:
  "GetType e = Some None \<Longrightarrow> \<not> IsConstant e \<Longrightarrow> TypeCheck (CAstUnaryOp t oper e) d = Some r \<Longrightarrow> \<not> fst r"
  by (auto simp: UnaryOp_check_def simp del: GetType.simps split: bind_splits if_splits)

lemma null_type_deref:
  "GetType e = Some None \<Longrightarrow> TypeCheck (CAstSpecialOp t opDeref e ty) d = Some r \<Longrightarrow> \<not> fst r"
  by (auto simp: Deref_check_def simp del: GetType.simps split: bind_splits if_splits)

lemma null_type_args:
  "e \<in> set es \<Longrightarrow> GetType e = Some None \<Longrightarrow> TypeCheck_args es ps d = Some r \<Longrightarrow> \<not> fst r"
proof (induction es arbitrary: ps d)
  case Nil
  then show ?case by simp
next
  case (Cons x es)
  from Cons.prems(3) obtain p ps' where ps: "ps = p # ps'" by (cases ps) auto
  show ?case
  proof (cases "e = x")
    case True
    with Cons.prems ps show ?thesis
      by (auto simp del: GetType.simps split: bind_splits if_splits)
  next
    case False
    with Cons.prems(1) have mem: "e \<in> set es" by simp
    show ?thesis
    proof (cases "fst r")
      case False
      then show ?thesis .
    next
      case True
      with Cons.prems(3) ps obtain d1 where "TypeCheck_args es ps' d1 = Some r"
        by (auto simp del: GetType.simps split: bind_splits if_splits)
      from Cons.IH [OF mem Cons.prems(2) this] show ?thesis .
    qed
  qed
qed

lemma null_type_call:
  "e \<in> set args \<Longrightarrow> GetType e = Some None \<Longrightarrow> TypeCheck (CAstFunctionCall t f args) d = Some r \<Longrightarrow> \<not> fst r"
  by (cases "int (length args) \<noteq> GetNParams f") (auto dest: null_type_args)

lemma null_type_index:
  assumes "e \<in> set idx" and "GetType e = Some None"
    and "TypeCheck (CAstArrayDesignator t symb idx fin) d = Some r"
  shows "\<not> fst r"
proof
  assume "fst r"
  then obtain d' where "r = (True, d')" by (cases r) auto
  with assms(3) have "TypeCheck_indices idx d = Some (True, d')"
    by (cases fin) auto
  from TypeCheck_indices_accepted [OF this assms(1)] assms(2) show False by auto
qed

text \<open>
  C3 (as amended): let \<open>k\<close> be the number of indices of an array designator whose symbol has
  a type. When the symbol, after the implicit dereference of a pointer, is not an array, or
  is an array of \<open>n\<close> dimensions with \<open>k > n\<close>, the type computed by \<open>GetType\<close> is NULL,
  and the designator is refused by the type check of the node that holds it: an assignment
  (on either side; on the left-hand side with the message "invalid variable type" once both
  sides have passed their own checks), a binary operation (as either operand), a unary
  operation, a dereference, a call (as an argument) and an array designator (as an index).
  When the symbol is an array of \<open>n\<close> dimensions and \<open>k \<le> n\<close>, the type is the type
  of the remaining \<open>n - k\<close> dimensions, an array type when \<open>k < n\<close>, and the
  designator's own type check accepts exactly when each index expression passes its own
  type check and has a type that matches the integer type.
\<close>

theorem C3_array_designator_type:
  assumes "GetDataType symb = Some sty" and "sty \<noteq> CPointerType None"
  shows "(array_of sty = None \<or> (\<exists>arr. array_of sty = Some arr \<and> NDim arr < int (length idx)) \<longrightarrow>
            GetType (CAstArrayDesignator t symb idx fin) = Some None
          \<and> (\<forall>r. StatAssign_TypeCheck (CAstStatAssign st (CAstArrayDesignator t symb idx fin) rhs) d = Some r
                 \<longrightarrow> \<not> fst r)
          \<and> (\<forall>d1 d2. TypeCheck (CAstArrayDesignator t symb idx fin) d = Some (True, d1)
                      \<and> TypeCheck rhs d1 = Some (True, d2) \<longrightarrow>
               StatAssign_TypeCheck (CAstStatAssign st (CAstArrayDesignator t symb idx fin) rhs) d =
                 Some (False, (t, [Str ''invalid variable type.'', Endl, Str ''LHS : '',
                                   Str ''<INVALID>'', Endl])))
          \<and> (\<forall>r. StatAssign_TypeCheck (CAstStatAssign st lhs (CAstArrayDesignator t symb idx fin)) d = Some r
                 \<longrightarrow> \<not> fst r)
          \<and> (\<forall>r. TypeCheck (CAstBinaryOp bt oper (CAstArrayDesignator t symb idx fin) x) d = Some r
                 \<longrightarrow> \<not> fst r)
          \<and> (\<forall>r. TypeCheck (CAstBinaryOp bt oper x (CAstArrayDesignator t symb idx fin)) d = Some r
                 \<longrightarrow> \<not> fst r)
          \<and> (\<forall>r. TypeCheck (CAstUnaryOp bt oper (CAstArrayDesignator t symb idx fin)) d = Some r
                 \<longrightarrow> \<not> fst r)
          \<and> (\<forall>r. TypeCheck (CAstSpecialOp bt opDeref (CAstArrayDesignator t symb idx fin) cty) d = Some r
                 \<longrightarrow> \<not> fst r)
          \<and> (\<forall>r. CAstArrayDesignator t symb idx fin \<in> set args
                   \<and> TypeCheck (CAstFunctionCall bt f args) d = Some r
                 \<longrightarrow> \<not> fst r)
          \<and> (\<forall>r. CAstArrayDesignator t symb idx fin \<in> set idx'
                   \<and> TypeCheck (CAstArrayDesignator bt symb' idx' fin') d = Some r
                 \<longrightarrow> \<not> fst r))
       \<and> (\<forall>arr. array_of sty = Some arr \<and> int (length idx) \<le> NDim arr \<longrightarrow>
            GetType (CAstArrayDesignator t symb idx fin) = Some (Some (remaining_dims (length idx) arr))
          \<and> NDim (remaining_dims (length idx) arr) = NDim arr - int (length idx)
          \<and> (int (length idx) < NDim arr \<longrightarrow> IsArray (remaining_dims (length idx) arr))
          \<and> (fin \<longrightarrow>
               ((\<exists>d'. TypeCheck (CAstArrayDesignator t symb idx fin) d = Some (True, d'))
                \<longleftrightarrow> (\<forall>e\<in>set idx. (\<exists>d0 d1. TypeCheck e d0 = Some (True, d1))
                                   \<and> (\<exists>ty. GetType e = Some (Some ty) \<and> Match ty CIntType)))))"
proof (intro conjI impI allI)
  let ?e = "CAstArrayDesignator t symb idx fin"
  assume "array_of sty = None \<or> (\<exists>arr. array_of sty = Some arr \<and> NDim arr < int (length idx))"
  then show ty: "GetType ?e = Some None"
    using assms by (auto simp: ArrayDesignator_GetType_eq)
  have nc: "\<not> IsConstant ?e" by simp
  show "\<And>r. StatAssign_TypeCheck (CAstStatAssign st ?e rhs) d = Some r \<Longrightarrow> \<not> fst r"
    by (rule null_type_assign_lhs [OF ty])
  show "\<And>d1 d2. TypeCheck ?e d = Some (True, d1) \<and> TypeCheck rhs d1 = Some (True, d2) \<Longrightarrow>
          StatAssign_TypeCheck (CAstStatAssign st ?e rhs) d =
            Some (False, (t, [Str ''invalid variable type.'', Endl, Str ''LHS : '',
                              Str ''<INVALID>'', Endl]))"
    using null_type_assign_lhs_message [OF ty, of d _ rhs _ st] by auto
  show "\<And>r. StatAssign_TypeCheck (CAstStatAssign st lhs ?e) d = Some r \<Longrightarrow> \<not> fst r"
    by (rule null_type_assign_rhs [OF ty])
  show "\<And>r. TypeCheck (CAstBinaryOp bt oper ?e x) d = Some r \<Longrightarrow> \<not> fst r"
    by (rule null_type_binary_left [OF ty])
  show "\<And>r. TypeCheck (CAstBinaryOp bt oper x ?e) d = Some r \<Longrightarrow> \<not> fst r"
    by (rule null_type_binary_right [OF ty])
  show "\<And>r. TypeCheck (CAstUnaryOp bt oper ?e) d = Some r \<Longrightarrow> \<not> fst r"
    by (rule null_type_unary [OF ty nc])
  show "\<And>r. TypeCheck (CAstSpecialOp bt opDeref ?e cty) d = Some r \<Longrightarrow> \<not> fst r"
    by (rule null_type_deref [OF ty])
  show "\<And>r. ?e \<in> set args \<and> TypeCheck (CAstFunctionCall bt f args) d = Some r \<Longrightarrow> \<not> fst r"
    using null_type_call [OF _ ty] by blast
  show "\<And>r. ?e \<in> set idx' \<and> TypeCheck (CAstArrayDesignator bt symb' idx' fin') d = Some r \<Longrightarrow> \<not> fst r"
    using null_type_index [OF _ ty] by blast
next
  fix arr
  assume a: "array_of sty = Some arr \<and> int (length idx) \<le> NDim arr"
  then show "GetType (CAstArrayDesignator t symb idx fin) = Some (Some (remaining_dims (length idx) arr))"
    using assms by (simp add: ArrayDesignator_GetType_eq GetType_strip_remaining)
  show "NDim (remaining_dims (length idx) arr) = NDim arr - int (length idx)"
    using a by (simp add: NDim_remaining_dims)
  assume "int (length idx) < NDim arr"
  then have "0 < NDim (remaining_dims (length idx) arr)"
    using a by (simp add: NDim_remaining_dims)
  then show "IsArray (remaining_dims (length idx) arr)"
    by (simp add: NDim_pos_iff)
next
  fix arr
  assume "array_of sty = Some arr \<and> int (length idx) \<le> NDim arr" and fin: fin
  show "(\<exists>d'. TypeCheck (CAstArrayDesignator t symb idx fin) d = Some (True, d'))
        \<longleftrightarrow> (\<forall>e\<in>set idx. (\<exists>d0 d1. TypeCheck e d0 = Some (True, d1))
                           \<and> (\<exists>ty. GetType e = Some (Some ty) \<and> Match ty CIntType))"
  proof
    assume "\<exists>d'. TypeCheck (CAstArrayDesignator t symb idx fin) d = Some (True, d')"
    then obtain d' where "TypeCheck_indices idx d = Some (True, d')" using fin by auto
    from TypeCheck_indices_accepted [OF this]
    show "\<forall>e\<in>set idx. (\<exists>d0 d1. TypeCheck e d0 = Some (True, d1))
                      \<and> (\<exists>ty. GetType e = Some (Some ty) \<and> Match ty CIntType)"
      by blast
  next
    assume "\<forall>e\<in>set idx. (\<exists>d0 d1. TypeCheck e d0 = Some (True, d1))
                      \<and> (\<exists>ty. GetType e = Some (Some ty) \<and> Match ty CIntType)"
    then have "\<exists>d'. TypeCheck_indices idx d = Some (True, d')"
      by (intro TypeCheck_indices_accepts) blast
    then show "\<exists>d'. TypeCheck (CAstArrayDesignator t symb idx fin) d = Some (True, d')"
      using fin by simp
  qed
qed

theorem C3_array_designator_type_witness:
  "GetType (CAstArrayDesignator (CToken 1 1)
       (CSymVar ''a'' (Some (CArrayType 5 (CArrayType 7 CIntType))))
       [CAstConstant (CToken 1 3) (Some CIntType) 1] True)
     = Some (Some (CArrayType 7 CIntType))
   \<and> TypeCheck (CAstArrayDesignator (CToken 1 1)
       (CSymVar ''a'' (Some (CArrayType 5 (CArrayType 7 CIntType))))
       [CAstConstant (CToken 1 3) (Some CIntType) 1] True) (CToken 0 0, [])
     = Some (True, (CToken 0 0, []))
   \<and> GetType (CAstArrayDesignator (CToken 1 1)
       (CSymVar ''b'' (Some (CArrayType 5 CIntType)))
       [CAstConstant (CToken 1 3) (Some CIntType) 1, CAstConstant (CToken 1 6) (Some CIntType) 2] True)
     = Some None
   \<and> StatAssign_TypeCheck (CAstStatAssign (CToken 1 9)
       (CAstArrayDesignator (CToken 1 1)
         (CSymVar ''b'' (Some (CArrayType 5 CIntType)))
         [CAstConstant (CToken 1 3) (Some CIntType) 1, CAstConstant (CToken 1 6) (Some CIntType) 2] True)
       (CAstConstant (CToken 1 12) (Some CIntType) 0)) (CToken 0 0, [])
     = Some (False, (CToken 1 1, [Str ''invalid variable type.'', Endl, Str ''LHS : '', Str ''<INVALID>'', Endl]))
   \<and> GetType (CAstArrayDesignator (CToken 2 1) (CSymVar ''x'' (Some CIntType))
       [CAstConstant (CToken 2 3) (Some CIntType) 1] True)
     = Some None
   \<and> StatAssign_TypeCheck (CAstStatAssign (CToken 2 6)
       (CAstArrayDesignator (CToken 2 1) (CSymVar ''x'' (Some CIntType))
         [CAstConstant (CToken 2 3) (Some CIntType) 1] True)
       (CAstConstant (CToken 2 9) (Some CIntType) 0)) (CToken 0 0, [])
     = Some (False, (CToken 2 1, [Str ''invalid variable type.'', Endl, Str ''LHS : '', Str ''<INVALID>'', Endl]))"
  using C3_array_designator_type [where symb = "CSymVar ''a'' (Some (CArrayType 5 (CArrayType 7 CIntType)))"
       and sty = "CArrayType 5 (CArrayType 7 CIntType)"
       and idx = "[CAstConstant (CToken 1 3) (Some CIntType) 1]" and t = "CToken 1 1" and fin = True,
       THEN conjunct2, THEN spec [of _ "CArrayType 5 (CArrayType 7 CIntType)"], THEN mp, THEN conjunct1]
    C3_array_designator_type [where symb = "CSymVar ''b'' (Some (CArrayType 5 CIntType))"
       and sty = "CArrayType 5 CIntType"
       and idx = "[CAstConstant (CToken 1 3) (Some CIntType) 1, CAstConstant (CToken 1 6) (Some CIntType) 2]"
       and t = "CToken 1 1" and fin = True, THEN conjunct1, THEN mp, THEN conjunct1]
    C3_array_designator_type [where symb = "CSymVar ''x'' (Some CIntType)"
       and sty = "CIntType"
       and idx = "[CAstConstant (CToken 2 3) (Some CIntType) 1]"
       and t = "CToken 2 1" and fin = True, THEN conjunct1, THEN mp, THEN conjunct1]
  by (simp add: Constant_check_def Match_def)

text \<open>
  C3 as stated fails: the designator \<open>a[1][2]\<close> over the one-dimensional array
  \<open>a\<close> of five integers has the NULL type, and its own type check returns true.
\<close>

theorem C3_over_indexed_counterexample:
  "GetType (CAstArrayDesignator (CToken 1 1) (CSymVar ''a'' (Some (CArrayType 5 CIntType)))
       [CAstConstant (CToken 1 3) (Some CIntType) 1, CAstConstant (CToken 1 6) (Some CIntType) 2] True)
     = Some None
   \<and> TypeCheck (CAstArrayDesignator (CToken 1 1) (CSymVar ''a'' (Some (CArrayType 5 CIntType)))
       [CAstConstant (CToken 1 3) (Some CIntType) 1, CAstConstant (CToken 1 6) (Some CIntType) 2] True)
       (CToken 0 0, [])
     = Some (True, (CToken 0 0, []))"
  by (simp add: ArrayDesignator_GetType_def Constant_check_def Match_def)

section \<open>Properties of the lowering to three-address code\<close>

lemma sint_uminus_64:
  fixes v :: "64 word"
  assumes "sint v \<noteq> - (2 ^ 63)"
  shows "sint (- v) = - sint v"
proof -
  have lo: "- (2 ^ 63) \<le> sint v" and hi: "sint v < 2 ^ 63"
    using sint_ge [of v] sint_lt [of v] by simp_all
  have "- v = word_of_int (- sint v)" by simp
  then have "sint (- v) = signed_take_bit 63 (- sint v)"
    by (simp only: sint_sbintrunc') simp
  also have "\<dots> = - sint v"
    using lo hi assms by (intro signed_take_bit_int_eq_self) simp_all
  finally show ?thesis .
qed

text \<open>
  C5: the value form of a unary minus whose operand is a constant node emits no
  instruction and creates no temporary or label: the code block is returned as it was, and
  the result is a constant address holding the negated value (negation of a
  \<open>long long\<close>; it is the arithmetic negation unless the value is the least
  \<open>long long\<close>). For the literal 2147483648 the result is the constant -2147483648.
\<close>

theorem C5_neg_literal:
  "ToTac sz (CAstUnaryOp t opNeg (CAstConstant ct cty v)) cb = Some (CTacConst (sint (- v)), cb)
   \<and> ToTac sz (CAstUnaryOp t opNeg (CAstConstant ct cty 2147483648)) cb =
       Some (CTacConst (- 2147483648), cb)
   \<and> (sint v \<noteq> - (2 ^ 63) \<longrightarrow> sint (- v) = - sint v)"
  by (simp add: sint_uminus_64)

theorem C5_neg_literal_witness:
  "ToTac (\<lambda>ty. 4) (CAstUnaryOp (CToken 1 1) opNeg (CAstConstant (CToken 1 2) (Some CIntType) 2147483648))
     \<lparr>instrs = [], temp_id = 0, label_id = 0, symtab = []\<rparr> =
   Some (CTacConst (- 2147483648), \<lparr>instrs = [], temp_id = 0, label_id = 0, symtab = []\<rparr>)"
  using C5_neg_literal [of "\<lambda>ty. 4" "CToken 1 1" "CToken 1 2" "Some CIntType" 2147483648
     "\<lparr>instrs = [], temp_id = 0, label_id = 0, symtab = []\<rparr>"]
  by simp

text \<open>
  C9: the value form of a special operation, whatever its operation (address-of,
  dereference or cast), lowers the operand to a value, creates one temporary of type
  pointer to the operand's type and appends exactly one address-of instruction from the
  operand's value into that temporary, which is the result. No other instruction is
  emitted: a dereference or a cast is lowered as an address-of.
\<close>

theorem C9_special_op:
  assumes "ToTac sz operand cb = Some (src, cb1)" and "GetType operand = Some oty"
  shows "ToTac sz (CAstSpecialOp t oper operand ty) cb =
     Some (CTacTemp (CTemp (temp_id cb1) (Some (CPointerType oty))),
           cb1\<lparr>temp_id := Suc (temp_id cb1),
               instrs := instrs cb1 @
                 [CTacInstr opAddress (Some (Addr (CTacTemp (CTemp (temp_id cb1) (Some (CPointerType oty))))))
                    (Some src) None]\<rparr>)"
  using assms by (simp add: AddInstr_def CreateTemp_def)

theorem C9_special_op_witness:
  "ToTac (\<lambda>ty. 4)
     (CAstSpecialOp (CToken 2 1) opDeref (CAstDesignator (CToken 2 2) (CSymVar ''p'' (Some CIntType))) None)
     \<lparr>instrs = [], temp_id = 0, label_id = 0, symtab = []\<rparr> =
   Some (CTacTemp (CTemp 0 (Some (CPointerType (Some CIntType)))),
         \<lparr>instrs = [CTacInstr opAddress
                       (Some (Addr (CTacTemp (CTemp 0 (Some (CPointerType (Some CIntType)))))))
                       (Some (CTacName (CSymVar ''p'' (Some CIntType)))) None],
          temp_id = 1, label_id = 0, symtab = []\<rparr>)"
  using C9_special_op [of "\<lambda>ty. 4" "CAstDesignator (CToken 2 2) (CSymVar ''p'' (Some CIntType))"
     "\<lparr>instrs = [], temp_id = 0, label_id = 0, symtab = []\<rparr>"
     "CTacName (CSymVar ''p'' (Some CIntType))"
     "\<lparr>instrs = [], temp_id = 0, label_id = 0, symtab = []\<rparr>"
     "Some CIntType" "CToken 2 1" opDeref None]
  by simp

text \<open>
  C10: the condition form of a constant appends exactly one instruction, an unconditional
  goto: to the true label when the value is not zero, to the false label when it is zero.
  A designator or a function call used as a condition instead compares its value with
  the constant 1: it appends a conditional jump on equality to the true label and a goto
  to the false label.
\<close>

theorem C10_constant_cond:
  "ToTac_cond sz (CAstConstant t ty v) ltrue lfalse cb =
     Some (Some (CTacConst (sint v)),
           cb\<lparr>instrs := instrs cb @ [Goto (if v \<noteq> 0 then ltrue else lfalse)]\<rparr>)
   \<and> ToTac_cond sz (CAstDesignator dt symb) ltrue lfalse cb =
     Some (None,
           cb\<lparr>instrs := instrs cb @
                 [CTacInstr opEqual (Some (Target ltrue)) (Some (CTacName symb)) (Some (CTacConst 1)),
                  Goto lfalse]\<rparr>)
   \<and> (\<forall>retval cb1. ToTac sz (CAstFunctionCall ft fsym args) cb = Some (retval, cb1) \<longrightarrow>
        ToTac_cond sz (CAstFunctionCall ft fsym args) ltrue lfalse cb =
          Some (None,
                cb1\<lparr>instrs := instrs cb1 @
                   [CTacInstr opEqual (Some (Target ltrue)) (Some retval) (Some (CTacConst 1)),
                    Goto lfalse]\<rparr>))"
  by (simp add: AddInstr_def)

theorem C10_constant_cond_witness:
  "ToTac_cond (\<lambda>ty. 4) (CAstConstant (CToken 1 1) (Some CBoolType) 2) (CTacLabel 7) (CTacLabel 8)
     \<lparr>instrs = [], temp_id = 0, label_id = 9, symtab = []\<rparr> =
   Some (Some (CTacConst 2),
         \<lparr>instrs = [CTacInstr opGoto (Some (Target (CTacLabel 7))) None None],
          temp_id = 0, label_id = 9, symtab = []\<rparr>)
   \<and> ToTac_cond (\<lambda>ty. 4) (CAstFunctionCall (CToken 1 1) (CSymProc ''f'' (Some CBoolType) []) [])
        (CTacLabel 7) (CTacLabel 8) \<lparr>instrs = [], temp_id = 0, label_id = 9, symtab = []\<rparr> =
   Some (None,
         \<lparr>instrs = [CTacInstr opCall (Some (Addr (CTacTemp (CTemp 0 (Some CBoolType)))))
                       (Some (CTacName (CSymProcedure (CSymProc ''f'' (Some CBoolType) [])))) None,
                    CTacInstr opEqual (Some (Target (CTacLabel 7)))
                       (Some (CTacTemp (CTemp 0 (Some CBoolType)))) (Some (CTacConst 1)),
                    CTacInstr opGoto (Some (Target (CTacLabel 8))) None None],
          temp_id = 1, label_id = 9, symtab = []\<rparr>)"
  using C10_constant_cond [of "\<lambda>ty. 4" "CToken 1 1" "Some CBoolType" 2 "CTacLabel 7" "CTacLabel 8"
     "\<lparr>instrs = [], temp_id = 0, label_id = 9, symtab = []\<rparr>" "CToken 0 0" "CSymVar ''x'' None"
     "CToken 1 1" "CSymProc ''f'' (Some CBoolType) []" "[]"]
  by (simp add: Goto_def AddInstr_def CreateTemp_def)

section \<open>What every lowering leaves unchanged\<close>

text \<open>
  From here on the equations of the lowering functions are unfolded only where named.
\<close>

declare ToTac.simps [simp del] ToTac_cond.simps [simp del] ToTac_params.simps [simp del]
  ToTac_index.simps [simp del] ToTac_indices.simps [simp del]

lemma jt_ext: "jt m L a b \<Longrightarrow> ext m a b"
  unfolding jt_def ext_def by blast

lemma jt_refl: "jt m L cb cb"
  by (simp add: jt_def)

lemma jt_label_id: "jt m L a b \<Longrightarrow> label_id a \<le> label_id b"
  by (simp add: jt_def)

lemma label_id_AddInstr [simp]: "label_id (AddInstr i cb) = label_id cb"
  by (simp add: AddInstr_def)

lemma jt_call:
  assumes 1: "jt m L a b" and 2: "jt (label_id b) L' b c" and 3: "m \<le> label_id a"
    and 4: "\<forall>l\<in>L'. l \<in> L \<or> (\<exists>k. l = CTacLabel k \<and> m \<le> k \<and> k < label_id b)"
  shows "jt m L a c"
proof -
  from 1 obtain c1 where
    i1: "instrs b = instrs a @ c1"
    and l1: "\<forall>k. LabelInstr (CTacLabel k) \<in> set c1 \<longrightarrow> m \<le> k"
    and j1: "\<forall>oper l s1 s2. CTacInstr oper (Some (Target l)) s1 s2 \<in> set c1 \<longrightarrow>
              l \<in> L \<or> (\<exists>k. l = CTacLabel k \<and> m \<le> k \<and> k < label_id b)"
    and m1: "label_id a \<le> label_id b" and t1: "temp_id a \<le> temp_id b"
    and s1: "symtab b = symtab a"
    unfolding jt_def by blast
  from 2 obtain c2 where
    i2: "instrs c = instrs b @ c2"
    and l2: "\<forall>k. LabelInstr (CTacLabel k) \<in> set c2 \<longrightarrow> label_id b \<le> k"
    and j2: "\<forall>oper l s1 s2. CTacInstr oper (Some (Target l)) s1 s2 \<in> set c2 \<longrightarrow>
              l \<in> L' \<or> (\<exists>k. l = CTacLabel k \<and> label_id b \<le> k \<and> k < label_id c)"
    and m2: "label_id b \<le> label_id c" and t2: "temp_id b \<le> temp_id c"
    and s2: "symtab c = symtab b"
    unfolding jt_def by blast
  have mb: "m \<le> label_id b" using 3 m1 by simp
  have i: "instrs c = instrs a @ (c1 @ c2)" using i1 i2 by simp
  have l: "\<forall>k. LabelInstr (CTacLabel k) \<in> set (c1 @ c2) \<longrightarrow> m \<le> k"
    using l1 l2 mb by (auto intro: le_trans)
  have j: "\<forall>oper l s1 s2. CTacInstr oper (Some (Target l)) s1 s2 \<in> set (c1 @ c2) \<longrightarrow>
              l \<in> L \<or> (\<exists>k. l = CTacLabel k \<and> m \<le> k \<and> k < label_id c)"
  proof (intro allI impI)
    fix oper l s1 s2
    assume "CTacInstr oper (Some (Target l)) s1 s2 \<in> set (c1 @ c2)"
    then consider "CTacInstr oper (Some (Target l)) s1 s2 \<in> set c1"
      | "CTacInstr oper (Some (Target l)) s1 s2 \<in> set c2" by auto
    then show "l \<in> L \<or> (\<exists>k. l = CTacLabel k \<and> m \<le> k \<and> k < label_id c)"
    proof cases
      case 1
      with j1 have "l \<in> L \<or> (\<exists>k. l = CTacLabel k \<and> m \<le> k \<and> k < label_id b)" by blast
      then show ?thesis using m2 by (auto intro: less_le_trans)
    next
      case 2
      with j2 have "l \<in> L' \<or> (\<exists>k. l = CTacLabel k \<and> label_id b \<le> k \<and> k < label_id c)" by blast
      then show ?thesis
      proof
        assume "l \<in> L'"
        with 4 have "l \<in> L \<or> (\<exists>k. l = CTacLabel k \<and> m \<le> k \<and> k < label_id b)" by blast
        then show ?thesis using m2 by (auto intro: less_le_trans)
      next
        assume "\<exists>k. l = CTacLabel k \<and> label_id b \<le> k \<and> k < label_id c"
        then show ?thesis using mb by (auto intro: le_trans)
      qed
    qed
  qed
  show ?thesis
    unfolding jt_def using i l j m1 m2 t1 t2 s1 s2 by (intro conjI exI [of _ "c1 @ c2"]) simp_all
qed

lemma jt_CreateLabel: "jt m L a b \<Longrightarrow> CreateLabel b = (l, b') \<Longrightarrow> jt m L a b'"
  unfolding jt_def CreateLabel_def by (fastforce intro: less_SucI)

lemma jt_CreateTemp: "jt m L a b \<Longrightarrow> CreateTemp ty b = (t, b') \<Longrightarrow> jt m L a b'"
  unfolding jt_def CreateTemp_def by fastforce

lemma jt_AddInstr:
  "jt m L a b \<Longrightarrow>
   (\<forall>l. d = Some (Target l) \<longrightarrow> l \<in> L \<or> (\<exists>k. l = CTacLabel k \<and> m \<le> k \<and> k < label_id b)) \<Longrightarrow>
   jt m L a (AddInstr (CTacInstr oper d s1 s2) b)"
  unfolding jt_def AddInstr_def by fastforce

lemma jt_Goto:
  "jt m L a b \<Longrightarrow> l \<in> L \<or> (\<exists>k. l = CTacLabel k \<and> m \<le> k \<and> k < label_id b) \<Longrightarrow>
   jt m L a (AddInstr (Goto l) b)"
  unfolding Goto_def by (rule jt_AddInstr) simp_all

lemma jt_Label: "jt m L a b \<Longrightarrow> m \<le> k \<Longrightarrow> jt m L a (AddInstr (LabelInstr (CTacLabel k)) b)"
  unfolding jt_def AddInstr_def by fastforce

lemma jt_base:
  "ArrayDesignator_base t symb sty cb = (idTac, idExpr, dtp, cb1) \<Longrightarrow> jt m L cb cb1"
  by (auto simp: ArrayDesignator_base_def jt_def AddInstr_def CreateTemp_def split: if_splits)

text \<open>The code that materialises a condition as 1 or 0.\<close>

lemma jt_materialise:
  assumes l1: "CreateLabel cb = (ltrue, cb1)" and l2: "CreateLabel cb1 = (lfalse, cb2)"
    and l3: "CreateLabel cb2 = (lend, cb3)"
    and e: "jt (label_id cb3) {ltrue, lfalse} cb3 cb4"
    and c: "CreateTemp ty cb4 = (v, cb5)"
  shows "jt (label_id cb) L cb
           (AddInstr (LabelInstr lend)
             (AddInstr (CTacInstr opAssign (Some (Addr d0)) s0 None)
               (AddInstr (LabelInstr lfalse)
                 (AddInstr (Goto lend)
                   (AddInstr (CTacInstr opAssign (Some (Addr d1)) s1 None)
                     (AddInstr (LabelInstr ltrue) cb5))))))"
proof -
  let ?m = "label_id cb"
  have n1: "ltrue = CTacLabel ?m" and n2: "lfalse = CTacLabel (Suc ?m)"
    and n3: "lend = CTacLabel (Suc (Suc ?m))"
    and n4: "label_id cb3 = Suc (Suc (Suc ?m))"
    using l1 l2 l3 by (auto simp: CreateLabel_def)
  have "jt ?m L cb cb3"
    by (rule jt_CreateLabel [OF jt_CreateLabel [OF jt_CreateLabel [OF jt_refl l1] l2] l3])
  then have "jt ?m L cb cb4" using e by (rule jt_call) (simp_all add: n1 n2 n4)
  then have 5: "jt ?m L cb cb5" using c by (rule jt_CreateTemp)
  have "label_id cb3 \<le> label_id cb4" using e by (rule jt_label_id)
  moreover have "label_id cb5 = label_id cb4" using c by (auto simp: CreateTemp_def)
  ultimately have b5: "Suc (Suc (Suc ?m)) \<le> label_id cb5" using n4 by simp
  show ?thesis unfolding n1 n2 n3
    using 5 b5 by (intro jt_Label jt_AddInstr jt_Goto) simp_all
qed

text \<open>
  Every lowering continues the code block it is given. The labels it places are labels it
  has created itself: their numbers start at the label counter of the block it was given.
  The value form jumps only to labels it has created itself; the condition form jumps
  only to its two targets and to labels it has created itself.
\<close>

lemma ToTac_jt:
  "ToTac sz e cb = Some (a, cb') \<Longrightarrow> jt (label_id cb) {} cb cb'"
  "ToTac_cond sz e lt lf cb = Some (r, cb') \<Longrightarrow> jt (label_id cb) {lt, lf} cb cb'"
  "ToTac_params sz args k cb = Some cb' \<Longrightarrow> jt (label_id cb) {} cb cb'"
  "ToTac_index sz idx i cur cb = Some (r, cb') \<Longrightarrow> jt (label_id cb) {} cb cb'"
  "ToTac_indices sz idx idExpr dim n i cur cb = Some (r, cb') \<Longrightarrow> jt (label_id cb) {} cb cb'"
proof (induction sz e cb and sz e lt lf cb and sz args k cb and sz idx i cur cb
         and sz idx idExpr dim n i cur cb
       arbitrary: a cb' and r cb' and cb' and r cb' and r cb'
       rule: ToTac_ToTac_cond_ToTac_params_ToTac_index_ToTac_indices.induct)
  case (1 sz t oper left right cb)
  show ?case
  proof (cases "oper = opAdd \<or> oper = opSub \<or> oper = opMul \<or> oper = opDiv")
    case True
    with "1.prems" obtain l c1 r c2 v c3 where
      a: "ToTac sz left cb = Some (l, c1)" and b: "ToTac sz right c1 = Some (r, c2)"
      and c: "CreateTemp (Some CIntType) c2 = (v, c3)"
      and d: "cb' = AddInstr (CTacInstr oper (Some (Addr (CTacTemp v))) (Some l) (Some r)) c3"
      by (auto simp: ToTac.simps(1) split: bind_splits prod.splits)
    have e1: "jt (label_id cb) {} cb c1" by (rule "1.IH"(1) [OF True a])
    have e2: "jt (label_id c1) {} c1 c2" by (rule "1.IH"(2) [OF True a refl b])
    have "jt (label_id cb) {} cb c2" by (rule jt_call [OF e1 e2]) simp_all
    then show ?thesis unfolding d by (intro jt_AddInstr jt_CreateTemp [OF _ c]) simp_all
  next
    case False
    obtain ltrue cb1 where l1: "CreateLabel cb = (ltrue, cb1)" by (cases "CreateLabel cb")
    obtain lfalse cb2 where l2: "CreateLabel cb1 = (lfalse, cb2)" by (cases "CreateLabel cb1")
    obtain lend cb3 where l3: "CreateLabel cb2 = (lend, cb3)" by (cases "CreateLabel cb2")
    from "1.prems" False l1 l2 l3 obtain r cb4 v cb5 where
      a: "ToTac_cond sz (CAstBinaryOp t oper left right) ltrue lfalse cb3 = Some (r, cb4)"
      and c: "CreateTemp (Some CBoolType) cb4 = (v, cb5)"
      and d: "cb' = AddInstr (LabelInstr lend)
                 (AddInstr (CTacInstr opAssign (Some (Addr (CTacTemp v))) (Some (CTacConst 0)) None)
                  (AddInstr (LabelInstr lfalse)
                   (AddInstr (Goto lend)
                    (AddInstr (CTacInstr opAssign (Some (Addr (CTacTemp v))) (Some (CTacConst 1)) None)
                     (AddInstr (LabelInstr ltrue) cb5)))))"
      by (auto simp: ToTac.simps(1) split: bind_splits prod.splits)
    have e: "jt (label_id cb3) {ltrue, lfalse} cb3 cb4"
      by (rule "1.IH"(3) [OF False refl l1 [symmetric] refl l2 [symmetric] refl l3 [symmetric] a])
    show ?thesis unfolding d by (rule jt_materialise [OF l1 l2 l3 e c])
  qed
next
  case (2 sz t oper left right ltrue lfalse cb)
  let ?L = "{ltrue, lfalse}"
  obtain nc cb1 where l1: "CreateLabel cb = (nc, cb1)" by (cases "CreateLabel cb")
  have nc: "nc = CTacLabel (label_id cb)" and n1: "label_id cb1 = Suc (label_id cb)"
    using l1 by (auto simp: CreateLabel_def)
  have e0: "jt (label_id cb) ?L cb cb1" by (rule jt_CreateLabel [OF jt_refl l1])
  show ?case
  proof (cases "IsRelOp oper")
    case True
    with "2.prems" l1 obtain rT c2 lT c3 where
      a: "ToTac sz right cb1 = Some (rT, c2)" and b: "ToTac sz left c2 = Some (lT, c3)"
      and d: "cb' = AddInstr (Goto lfalse)
                 (AddInstr (CTacInstr oper (Some (Target ltrue)) (Some lT) (Some rT)) c3)"
      by (auto simp: ToTac_cond.simps(1) split: bind_splits prod.splits)
    have e1: "jt (label_id cb1) {} cb1 c2" by (rule "2.IH"(1) [OF refl l1 [symmetric] True a])
    have e2: "jt (label_id c2) {} c2 c3" by (rule "2.IH"(2) [OF refl l1 [symmetric] True a refl b])
    have "jt (label_id cb) ?L cb c2" by (rule jt_call [OF e0 e1]) simp_all
    then have "jt (label_id cb) ?L cb c3" using e2 by (rule jt_call) simp_all
    then show ?thesis unfolding d by (intro jt_AddInstr jt_Goto) simp_all
  next
    case False
    show ?thesis
    proof (cases "oper = opAnd")
      case True
      with "2.prems" l1 False obtain r1 c2 r2 where
        a: "ToTac_cond sz left nc lfalse cb1 = Some (r1, c2)"
        and b: "ToTac_cond sz right ltrue lfalse (AddInstr (LabelInstr nc) c2) = Some (r2, cb')"
        by (auto simp: ToTac_cond.simps(1) split: bind_splits prod.splits)
      have e1: "jt (label_id cb1) {nc, lfalse} cb1 c2"
        by (rule "2.IH"(3) [OF refl l1 [symmetric] False True a])
      have e2: "jt (label_id (AddInstr (LabelInstr nc) c2)) ?L (AddInstr (LabelInstr nc) c2) cb'"
        by (rule "2.IH"(4) [OF refl l1 [symmetric] False True a refl b])
      have "jt (label_id cb) ?L cb c2" by (rule jt_call [OF e0 e1]) (simp_all add: nc n1)
      then have e3: "jt (label_id cb) ?L cb (AddInstr (LabelInstr nc) c2)"
        unfolding nc by (rule jt_Label) simp
      show ?thesis by (rule jt_call [OF e3 e2]) simp_all
    next
      case nand: False
      with "2.prems" l1 False obtain r1 c2 r2 where
        a: "ToTac_cond sz left ltrue nc cb1 = Some (r1, c2)"
        and b: "ToTac_cond sz right ltrue lfalse (AddInstr (LabelInstr nc) c2) = Some (r2, cb')"
        by (auto simp: ToTac_cond.simps(1) split: bind_splits prod.splits)
      have e1: "jt (label_id cb1) {ltrue, nc} cb1 c2"
        by (rule "2.IH"(5) [OF refl l1 [symmetric] False nand a])
      have e2: "jt (label_id (AddInstr (LabelInstr nc) c2)) ?L (AddInstr (LabelInstr nc) c2) cb'"
        by (rule "2.IH"(6) [OF refl l1 [symmetric] False nand a refl b])
      have "jt (label_id cb) ?L cb c2" by (rule jt_call [OF e0 e1]) (simp_all add: nc n1)
      then have e3: "jt (label_id cb) ?L cb (AddInstr (LabelInstr nc) c2)"
        unfolding nc by (rule jt_Label) simp
      show ?thesis by (rule jt_call [OF e3 e2]) simp_all
    qed
  qed
next
  case (3 sz t oper operand cb)
  show ?case
  proof (cases "oper = opPos \<or> oper = opNeg")
    case True
    show ?thesis
    proof (cases "ConstantValue operand")
      case None
      with "3.prems" True obtain oT c1 v c2 where
        a: "ToTac sz operand cb = Some (oT, c1)"
        and c: "CreateTemp (Some CIntType) c1 = (v, c2)"
        and d: "cb' = AddInstr (CTacInstr oper (Some (Addr (CTacTemp v))) (Some oT) None) c2"
        by (auto simp: ToTac.simps(2) split: bind_splits prod.splits)
      have "jt (label_id cb) {} cb c1" by (rule "3.IH"(1) [OF True None a])
      then show ?thesis unfolding d by (intro jt_AddInstr jt_CreateTemp [OF _ c]) simp_all
    next
      case (Some v)
      with "3.prems" True have "cb' = cb" by (auto simp: ToTac.simps(2))
      then show ?thesis by (simp add: jt_refl)
    qed
  next
    case False
    obtain ltrue cb1 where l1: "CreateLabel cb = (ltrue, cb1)" by (cases "CreateLabel cb")
    obtain lfalse cb2 where l2: "CreateLabel cb1 = (lfalse, cb2)" by (cases "CreateLabel cb1")
    obtain lend cb3 where l3: "CreateLabel cb2 = (lend, cb3)" by (cases "CreateLabel cb2")
    from "3.prems" False l1 l2 l3 obtain r cb4 v cb5 where
      a: "ToTac_cond sz (CAstUnaryOp t oper operand) ltrue lfalse cb3 = Some (r, cb4)"
      and c: "CreateTemp (Some CBoolType) cb4 = (v, cb5)"
      and d: "cb' = AddInstr (LabelInstr lend)
                 (AddInstr (CTacInstr opAssign (Some (Addr (CTacTemp v))) (Some (CTacConst 0)) None)
                  (AddInstr (LabelInstr lfalse)
                   (AddInstr (Goto lend)
                    (AddInstr (CTacInstr opAssign (Some (Addr (CTacTemp v))) (Some (CTacConst 1)) None)
                     (AddInstr (LabelInstr ltrue) cb5)))))"
      by (auto simp: ToTac.simps(2) split: bind_splits prod.splits)
    have e: "jt (label_id cb3) {ltrue, lfalse} cb3 cb4"
      by (rule "3.IH"(2) [OF False refl l1 [symmetric] refl l2 [symmetric] refl l3 [symmetric] a])
    show ?thesis unfolding d by (rule jt_materialise [OF l1 l2 l3 e c])
  qed
next
  case (4 sz t oper operand ltrue lfalse cb)
  from "4.prems" obtain r1 where n: "\<not> oper \<noteq> opNot"
    and a: "ToTac_cond sz operand lfalse ltrue cb = Some (r1, cb')"
    by (auto simp: ToTac_cond.simps(2) split: bind_splits prod.splits if_splits)
  have "jt (label_id cb) {lfalse, ltrue} cb cb'" by (rule "4.IH" [OF n a])
  then show ?case by (simp add: insert_commute)
next
  case (5 sz t oper operand ty cb)
  from "5.prems" obtain src c1 v c2 where
    a: "ToTac sz operand cb = Some (src, c1)"
    and c: "CreateTemp (Some (CPointerType (the (GetType operand)))) c1 = (v, c2)"
    and d: "cb' = AddInstr (CTacInstr opAddress (Some (Addr (CTacTemp v))) (Some src) None) c2"
    by (auto simp: ToTac.simps(3) split: bind_splits prod.splits)
  have "jt (label_id cb) {} cb c1" by (rule "5.IH" [OF a])
  then show ?case unfolding d by (intro jt_AddInstr jt_CreateTemp [OF _ c]) simp_all
next
  case (6 sz t oper operand ty ltrue lfalse cb)
  then show ?case by (simp add: ToTac_cond.simps(3) jt_refl)
next
  case (7 sz t symb args cb)
  from "7.prems" obtain c1 v c2 where
    a: "ToTac_params sz args (length args) cb = Some c1"
    and c: "CreateTemp (ProcDataType symb) c1 = (v, c2)"
    and d: "cb' = AddInstr (CTacInstr opCall (Some (Addr (CTacTemp v)))
                     (Some (CTacName (CSymProcedure symb))) None) c2"
    by (auto simp: ToTac.simps(4) split: bind_splits prod.splits)
  have "jt (label_id cb) {} cb c1" by (rule "7.IH" [OF a])
  then show ?case unfolding d by (intro jt_AddInstr jt_CreateTemp [OF _ c]) simp_all
next
  case (8 sz t symb args ltrue lfalse cb)
  from "8.prems" obtain rv c1 where
    a: "ToTac sz (CAstFunctionCall t symb args) cb = Some (rv, c1)"
    and d: "cb' = AddInstr (Goto lfalse)
              (AddInstr (CTacInstr opEqual (Some (Target ltrue)) (Some rv) (Some (CTacConst 1))) c1)"
    by (auto simp: ToTac_cond.simps(4) split: bind_splits prod.splits)
  have "jt (label_id cb) {} cb c1" by (rule "8.IH" [OF a])
  then have "jt (label_id cb) {ltrue, lfalse} cb c1"
    by (rule jt_call [OF jt_refl]) simp_all
  then show ?case unfolding d by (intro jt_AddInstr jt_Goto) simp_all
next
  case (9 sz t symb cb)
  then show ?case by (simp add: ToTac.simps(5) jt_refl)
next
  case (10 sz t symb ltrue lfalse cb)
  from "10.prems" obtain rv c1 where
    a: "ToTac sz (CAstDesignator t symb) cb = Some (rv, c1)"
    and d: "cb' = AddInstr (Goto lfalse)
              (AddInstr (CTacInstr opEqual (Some (Target ltrue)) (Some rv) (Some (CTacConst 1))) c1)"
    by (auto simp: ToTac_cond.simps(5) split: bind_splits prod.splits)
  have "jt (label_id cb) {} cb c1" by (rule "10.IH" [OF a])
  then have "jt (label_id cb) {ltrue, lfalse} cb c1"
    by (rule jt_call [OF jt_refl]) simp_all
  then show ?case unfolding d by (intro jt_AddInstr jt_Goto) simp_all
next
  case (11 sz t symb idx fin cb)
  from "11.prems" obtain sty idTac idExpr dataType cb1 bs n idxv cb2 tmp cb3 dofs ofs cb5
      tmp2 cb6 tmp3 cb8 where
    g: "GetDataType symb = Some sty"
    and base: "ArrayDesignator_base t symb sty cb = (idTac, idExpr, Some dataType, cb1)"
    and abt: "ArrayBaseType dataType = Some bs"
    and gnd: "GetNDim dataType = Some n"
    and a: "ToTac_indices sz idx idExpr (as_CSymProc (FindSymbol cb ''DIM'')) n 0 None cb1 = Some (idxv, cb2)"
    and c: "CreateTemp (Some CIntType) cb2 = (tmp, cb3)"
    and dofs: "as_CSymProc (FindSymbol cb ''DOFS'') = Some dofs"
    and b: "ToTac sz (CAstFunctionCall CToken_default dofs [idExpr])
              (AddInstr (CTacInstr opMul (Some (Addr (CTacTemp tmp))) idxv (Some (CTacConst (sz bs)))) cb3)
            = Some (ofs, cb5)"
    and c2: "CreateTemp (Some CIntType) cb5 = (tmp2, cb6)"
    and c3: "CreateTemp (Some CIntType)
               (AddInstr (CTacInstr opAdd (Some (Addr (CTacTemp tmp2))) (Some (CTacTemp tmp)) (Some ofs)) cb6)
             = (tmp3, cb8)"
    and d: "cb' = AddInstr (CTacInstr opAdd (Some (Addr (CTacTemp tmp3))) (Some idTac) (Some (CTacTemp tmp2))) cb8"
    by (auto simp: ToTac.simps(6) Let_def split: bind_splits prod.splits option.splits)
  let ?m = "label_id cb"
  let ?cb4 = "AddInstr (CTacInstr opMul (Some (Addr (CTacTemp tmp))) idxv (Some (CTacConst (sz bs)))) cb3"
  have e0: "jt ?m {} cb cb1" by (rule jt_base [OF base])
  have e1: "jt (label_id cb1) {} cb1 cb2"
    by (rule "11.IH"(1) [OF refl refl g base [symmetric] refl refl refl abt refl gnd a])
  have e2: "jt (label_id ?cb4) {} ?cb4 cb5"
    by (rule "11.IH"(2) [OF refl refl g base [symmetric] refl refl refl abt refl gnd a refl refl
          c [symmetric] refl dofs b])
  have "jt ?m {} cb cb2" by (rule jt_call [OF e0 e1]) simp_all
  then have "jt ?m {} cb ?cb4" by (intro jt_AddInstr jt_CreateTemp [OF _ c]) simp_all
  then have "jt ?m {} cb cb5" using e2 by (rule jt_call) simp_all
  then have "jt ?m {} cb cb8"
    by (intro jt_CreateTemp [OF _ c3] jt_AddInstr jt_CreateTemp [OF _ c2]) simp_all
  then show ?case unfolding d by (rule jt_AddInstr) simp
next
  case (12 sz t symb idx fin ltrue lfalse cb)
  from "12.prems" obtain rv c1 where
    a: "ToTac sz (CAstArrayDesignator t symb idx fin) cb = Some (rv, c1)"
    and d: "cb' = AddInstr (Goto lfalse)
              (AddInstr (CTacInstr opEqual (Some (Target ltrue)) (Some rv) (Some (CTacConst 1))) c1)"
    by (auto simp: ToTac_cond.simps(6) split: bind_splits prod.splits)
  have "jt (label_id cb) {} cb c1" by (rule "12.IH" [OF a])
  then have "jt (label_id cb) {ltrue, lfalse} cb c1"
    by (rule jt_call [OF jt_refl]) simp_all
  then show ?case unfolding d by (intro jt_AddInstr jt_Goto) simp_all
next
  case (13 sz t ty v cb)
  then show ?case by (simp add: ToTac.simps(7) jt_refl)
next
  case (14 sz t ty v ltrue lfalse cb)
  then show ?case
    by (auto simp: ToTac_cond.simps(7) intro!: jt_Goto jt_refl split: if_splits)
next
  case (15 sz t ty symb cb)
  then show ?case by (simp add: ToTac.simps(8) jt_refl)
next
  case (16 sz t ty symb ltrue lfalse cb)
  then show ?case by (simp add: ToTac_cond.simps(8) jt_refl)
next
  case (17 sz args cb)
  then show ?case by (simp add: ToTac_params.simps jt_refl)
next
  case (18 sz args i cb)
  from "18.prems" obtain argTac c1 where
    lt: "i < length args"
    and a: "ToTac sz (args ! i) cb = Some (argTac, c1)"
    and b: "ToTac_params sz args i
              (AddInstr (CTacInstr opParam (Some (Addr (CTacConst (int i)))) (Some argTac) None) c1)
            = Some cb'"
    by (auto simp: ToTac_params.simps split: bind_splits prod.splits if_splits)
  let ?c = "AddInstr (CTacInstr opParam (Some (Addr (CTacConst (int i)))) (Some argTac) None) c1"
  have e1: "jt (label_id cb) {} cb c1" by (rule "18.IH"(1) [OF lt a])
  have e2: "jt (label_id ?c) {} ?c cb'" by (rule "18.IH"(2) [OF lt a refl b])
  have "jt (label_id cb) {} cb ?c" using e1 by (rule jt_AddInstr) simp
  then show ?case using e2 by (rule jt_call) simp_all
next
  case (19 sz idx i cur cb)
  show ?case
  proof (cases cur)
    case None
    with "19.prems" obtain x where lt: "i < length idx"
      and a: "ToTac sz (idx ! i) cb = Some (x, cb')"
      by (auto simp: ToTac_index.simps split: bind_splits prod.splits if_splits)
    show ?thesis by (rule "19.IH"(1) [OF None lt a])
  next
    case (Some idxv)
    show ?thesis
    proof (cases "i < length idx")
      case True
      with "19.prems" Some obtain prev c1 nx c2 where
        a: "ToTac sz (idx ! i) cb = Some (prev, c1)"
        and c: "CreateTemp (Some CIntType) c1 = (nx, c2)"
        and d: "cb' = AddInstr (CTacInstr opAdd (Some (Addr (CTacTemp nx))) (Some idxv) (Some prev)) c2"
        by (auto simp: ToTac_index.simps split: bind_splits prod.splits)
      have "jt (label_id cb) {} cb c1" by (rule "19.IH"(2) [OF Some True a])
      then show ?thesis unfolding d by (intro jt_AddInstr jt_CreateTemp [OF _ c]) simp_all
    next
      case False
      with "19.prems" Some obtain nx c2 where
        c: "CreateTemp (Some CIntType) cb = (nx, c2)"
        and d: "cb' = AddInstr (CTacInstr opAdd (Some (Addr (CTacTemp nx))) (Some idxv) (Some (CTacConst 0))) c2"
        by (auto simp: ToTac_index.simps split: bind_splits prod.splits)
      have "jt (label_id cb) {} cb cb" by (rule jt_refl)
      then show ?thesis unfolding d by (intro jt_AddInstr jt_CreateTemp [OF _ c]) simp_all
    qed
  qed
next
  case (20 sz idx idExpr DIM_SYM iterateCount i cur cb)
  show ?case
  proof (cases "int i < iterateCount")
    case False
    with "20.prems" have "cb' = cb" by (subst (asm) ToTac_indices.simps) simp
    then show ?thesis by (simp add: jt_refl)
  next
    case True
    with "20.prems" obtain cur1 cb1 where
      a: "ToTac_index sz idx i cur cb = Some (cur1, cb1)"
      by (subst (asm) ToTac_indices.simps) (auto split: bind_splits prod.splits)
    have e1: "jt (label_id cb) {} cb cb1" by (rule "20.IH"(1) [OF True a])
    show ?thesis
    proof (cases "int i = iterateCount - 1")
      case last: True
      with "20.prems" True a have "cb' = cb1" by (subst (asm) ToTac_indices.simps) simp
      then show ?thesis using e1 by simp
    next
      case ne: False
      with "20.prems" True a obtain dm es cb2 nx cb3 where
        dq: "DIM_SYM = Some dm"
        and b: "ToTac sz (CAstFunctionCall CToken_default dm
                  [idExpr, CAstConstant CToken_default (Some CIntType) (word_of_nat (i + 2))]) cb1
                = Some (es, cb2)"
        and c: "CreateTemp (Some CIntType) cb2 = (nx, cb3)"
        and e: "ToTac_indices sz idx idExpr DIM_SYM iterateCount (Suc i) (Some (CTacTemp nx))
                  (AddInstr (CTacInstr opMul (Some (Addr (CTacTemp nx))) cur1 (Some es)) cb3)
                = Some (r, cb')"
        by (subst (asm) ToTac_indices.simps) (auto split: bind_splits prod.splits)
      let ?c = "AddInstr (CTacInstr opMul (Some (Addr (CTacTemp nx))) cur1 (Some es)) cb3"
      have e2: "jt (label_id cb1) {} cb1 cb2" by (rule "20.IH"(2) [OF True a refl ne dq b])
      have e3: "jt (label_id ?c) {} ?c cb'"
        by (rule "20.IH"(3) [OF True a refl ne dq b refl refl c [symmetric] e])
      have "jt (label_id cb) {} cb cb2" by (rule jt_call [OF e1 e2]) simp_all
      then have "jt (label_id cb) {} cb ?c" by (intro jt_AddInstr jt_CreateTemp [OF _ c]) simp_all
      then show ?thesis using e3 by (rule jt_call) simp_all
    qed
  qed
qed

lemma ToTac_ext:
  "ToTac sz e cb = Some (a, cb') \<Longrightarrow> ext (label_id cb) cb cb'"
  "ToTac_cond sz e lt lf cb = Some (r, cb') \<Longrightarrow> ext (label_id cb) cb cb'"
  "ToTac_params sz args k cb = Some cb' \<Longrightarrow> ext (label_id cb) cb cb'"
  "ToTac_index sz idx i cur cb = Some (r, cb') \<Longrightarrow> ext (label_id cb) cb cb'"
  "ToTac_indices sz idx idExpr dim n i cur cb = Some (r, cb') \<Longrightarrow> ext (label_id cb) cb cb'"
  by (blast intro: jt_ext ToTac_jt)+

section \<open>Calls as statements\<close>

lemma ToTac_params_lower_args:
  "k \<le> length args \<Longrightarrow>
     ToTac_params sz args k cb = lower_args sz (rev (enumerate 0 (take k args))) cb"
proof (induction k arbitrary: cb)
  case 0
  then show ?case by (simp add: ToTac_params.simps)
next
  case (Suc k)
  then have lt: "k < length args" and le: "k \<le> length args" by simp_all
  have "take (Suc k) args = take k args @ [args ! k]"
    using lt by (simp add: take_Suc_conv_app_nth)
  then have "rev (enumerate 0 (take (Suc k) args)) = (k, args ! k) # rev (enumerate 0 (take k args))"
    using le by (simp add: enumerate_append_eq min_def)
  then show ?case
    using lt Suc.IH [OF le] by (simp add: ToTac_params.simps)
qed

lemma lower_args_layout:
  "lower_args sz ps cb = Some cb' \<Longrightarrow>
     \<exists>segs. length segs = length ps \<and> instrs cb' = instrs cb @ concat segs \<and>
       (\<forall>j<length ps. \<exists>code tac.
           segs ! j = code @ [CTacInstr opParam (Some (Addr (CTacConst (int (fst (ps ! j)))))) (Some tac) None])"
proof (induction ps arbitrary: cb)
  case Nil
  then show ?case by simp
next
  case (Cons p ps)
  obtain i arg where p: "p = (i, arg)" by (cases p)
  let ?par = "\<lambda>tac. CTacInstr opParam (Some (Addr (CTacConst (int i)))) (Some tac) None"
  from Cons.prems p obtain tac c1 where
    a: "ToTac sz arg cb = Some (tac, c1)"
    and b: "lower_args sz ps (AddInstr (?par tac) c1) = Some cb'"
    by (auto split: bind_splits)
  from ToTac_ext(1) [OF a] obtain code where code: "instrs c1 = instrs cb @ code"
    by (auto simp: ext_def)
  from Cons.IH [OF b] obtain segs where
    len: "length segs = length ps"
    and ins: "instrs cb' = instrs (AddInstr (?par tac) c1) @ concat segs"
    and seg: "\<forall>j<length ps. \<exists>code tac.
           segs ! j = code @ [CTacInstr opParam (Some (Addr (CTacConst (int (fst (ps ! j)))))) (Some tac) None]"
    by blast
  let ?segs = "(code @ [?par tac]) # segs"
  have "length ?segs = length (p # ps)" using len by simp
  moreover have "instrs cb' = instrs cb @ concat ?segs"
    using ins code by (simp add: AddInstr_def)
  moreover have "\<forall>j<length (p # ps). \<exists>code tac.
           ?segs ! j = code @ [CTacInstr opParam (Some (Addr (CTacConst (int (fst ((p # ps) ! j)))))) (Some tac) None]"
  proof (intro allI impI)
    fix j assume "j < length (p # ps)"
    then show "\<exists>code tac.
           ?segs ! j = code @ [CTacInstr opParam (Some (Addr (CTacConst (int (fst ((p # ps) ! j)))))) (Some tac) None]"
      using seg p by (cases j) auto
  qed
  ultimately show ?case by blast
qed

text \<open>
  C6: a call statement with the arguments \<open>a\<^sub>0 \<dots> a\<^sub>n\<^sub>-\<^sub>1\<close> lowers the pairs
  \<open>(n-1, a\<^sub>n\<^sub>-\<^sub>1), \<dots>, (0, a\<^sub>0)\<close> in this order: each argument is lowered to a value and
  one \<open>param\<close> instruction with its index follows. So the instructions added by the
  arguments are \<open>n\<close> segments, that of the last argument first, and segment \<open>i\<close> ends with
  \<open>param i\<close>. Then a result temporary is created exactly when the return type of the
  callee is not the null type, the \<open>call\<close> instruction (with that temporary as its
  destination, or none) and \<open>goto next\<close> are appended. The statement returns no address:
  the result temporary is not used afterwards.
\<close>

theorem C6_call_statement:
  "StatCall_ToTac sz (CAstStatCall t ct symb args) next cb =
     (case lower_args sz (rev (enumerate 0 args)) cb of
        None \<Rightarrow> None
      | Some cb1 \<Rightarrow>
          Some (None,
            if ProcDataType symb \<noteq> Some CNullType then
              cb1\<lparr>instrs := instrs cb1 @
                     [CTacInstr opCall (Some (Addr (CTacTemp (CTemp (temp_id cb1) (ProcDataType symb)))))
                        (Some (CTacName (CSymProcedure symb))) None,
                      Goto next],
                  temp_id := Suc (temp_id cb1)\<rparr>
            else
              cb1\<lparr>instrs := instrs cb1 @
                     [CTacInstr opCall None (Some (CTacName (CSymProcedure symb))) None,
                      Goto next]\<rparr>))
   \<and> (\<forall>cb1. lower_args sz (rev (enumerate 0 args)) cb = Some cb1 \<longrightarrow>
         (\<exists>segs. length segs = length args \<and> instrs cb1 = instrs cb @ concat (rev segs) \<and>
            (\<forall>i<length args. \<exists>code tac.
               segs ! i = code @ [CTacInstr opParam (Some (Addr (CTacConst (int i)))) (Some tac) None])))"
proof (intro conjI allI impI)
  show "StatCall_ToTac sz (CAstStatCall t ct symb args) next cb =
     (case lower_args sz (rev (enumerate 0 args)) cb of
        None \<Rightarrow> None
      | Some cb1 \<Rightarrow>
          Some (None,
            if ProcDataType symb \<noteq> Some CNullType then
              cb1\<lparr>instrs := instrs cb1 @
                     [CTacInstr opCall (Some (Addr (CTacTemp (CTemp (temp_id cb1) (ProcDataType symb)))))
                        (Some (CTacName (CSymProcedure symb))) None,
                      Goto next],
                  temp_id := Suc (temp_id cb1)\<rparr>
            else
              cb1\<lparr>instrs := instrs cb1 @
                     [CTacInstr opCall None (Some (CTacName (CSymProcedure symb))) None,
                      Goto next]\<rparr>))"
    using ToTac_params_lower_args [of "length args" args sz cb]
    by (cases "lower_args sz (rev (enumerate 0 args)) cb")
       (simp_all add: AddInstr_def CreateTemp_def)
next
  fix cb1
  assume a: "lower_args sz (rev (enumerate 0 args)) cb = Some cb1"
  let ?ps = "rev (enumerate 0 args)"
  from lower_args_layout [OF a] obtain segs where
    len: "length segs = length ?ps"
    and ins: "instrs cb1 = instrs cb @ concat segs"
    and seg: "\<forall>j<length ?ps. \<exists>code tac.
           segs ! j = code @ [CTacInstr opParam (Some (Addr (CTacConst (int (fst (?ps ! j)))))) (Some tac) None]"
    by blast
  have n: "length segs = length args" using len by simp
  have "\<forall>i<length args. \<exists>code tac.
           rev segs ! i = code @ [CTacInstr opParam (Some (Addr (CTacConst (int i)))) (Some tac) None]"
  proof (intro allI impI)
    fix i assume i: "i < length args"
    let ?j = "length args - Suc i"
    have j: "?j < length ?ps" using i by simp
    have "?ps ! ?j = enumerate 0 args ! i"
      using i by (simp add: rev_nth)
    then have f: "fst (?ps ! ?j) = i" using i by (simp add: nth_enumerate_eq)
    have "rev segs ! i = segs ! ?j" using i n by (simp add: rev_nth)
    with seg j f show "\<exists>code tac.
           rev segs ! i = code @ [CTacInstr opParam (Some (Addr (CTacConst (int i)))) (Some tac) None]"
      by (metis (no_types, lifting))
  qed
  then show "\<exists>segs. length segs = length args \<and> instrs cb1 = instrs cb @ concat (rev segs) \<and>
            (\<forall>i<length args. \<exists>code tac.
               segs ! i = code @ [CTacInstr opParam (Some (Addr (CTacConst (int i)))) (Some tac) None])"
    using n ins by (intro exI [of _ "rev segs"]) simp
qed

theorem C6_call_statement_witness:
  "StatCall_ToTac (\<lambda>ty. 4)
     (CAstStatCall (CToken 1 1) (CToken 1 1) (CSymProc ''f'' (Some CIntType) [Some CIntType, Some CIntType])
        [CAstConstant (CToken 1 3) (Some CIntType) 10, CAstDesignator (CToken 1 7) (CSymVar ''x'' (Some CIntType))])
     (CTacLabel 5) \<lparr>instrs = [], temp_id = 0, label_id = 6, symtab = []\<rparr> =
   Some (None,
     \<lparr>instrs =
        [CTacInstr opParam (Some (Addr (CTacConst 1))) (Some (CTacName (CSymVar ''x'' (Some CIntType)))) None,
         CTacInstr opParam (Some (Addr (CTacConst 0))) (Some (CTacConst 10)) None,
         CTacInstr opCall (Some (Addr (CTacTemp (CTemp 0 (Some CIntType)))))
           (Some (CTacName (CSymProcedure (CSymProc ''f'' (Some CIntType) [Some CIntType, Some CIntType])))) None,
         CTacInstr opGoto (Some (Target (CTacLabel 5))) None None],
      temp_id = 1, label_id = 6, symtab = []\<rparr>)"
  using C6_call_statement [of "\<lambda>ty. 4" "CToken 1 1" "CToken 1 1"
      "CSymProc ''f'' (Some CIntType) [Some CIntType, Some CIntType]"
      "[CAstConstant (CToken 1 3) (Some CIntType) 10, CAstDesignator (CToken 1 7) (CSymVar ''x'' (Some CIntType))]"
      "CTacLabel 5" "\<lparr>instrs = [], temp_id = 0, label_id = 6, symtab = []\<rparr>"]
  by (simp add: enumerate_eq_zip ToTac.simps AddInstr_def Goto_def upt_rec)

section \<open>Short-circuit conditions\<close>










section \<open>Array element addresses\<close>

lemma ToTac_indices_Some:
  "i < N \<Longrightarrow>
   ToTac_indices sz idx idExpr DIM (int N) i (Some p) cb =
     do {
       (ix, c1) \<leftarrow> (if i < length idx then ToTac sz (idx ! i) cb else Some (CTacConst 0, cb));
       let (sm, c2) = CreateTemp (Some CIntType) c1;
       (a, c) \<leftarrow> offset_dims sz idx idExpr DIM (N - Suc i) (i + 2) (CTacTemp sm)
                   (AddInstr (CTacInstr opAdd (Some (Addr (CTacTemp sm))) (Some p) (Some ix)) c2);
       Some (Some a, c)
     }"
proof (induction "N - Suc i" arbitrary: i p cb)
  case 0
  then have last: "int i = int N - 1" by simp
  show ?case
    using 0 last
    by (subst ToTac_indices.simps)
       (simp add: ToTac_index.simps Let_def split_def)
next
  case (Suc m)
  then have ne: "int i \<noteq> int N - 1" and lt: "Suc i < N" and m: "m = N - Suc (Suc i)"
    and r: "N - Suc i = Suc m" by simp_all
  have le: "(i + 2 \<le> length idx) = (Suc i < length idx)" by auto
  note IH = Suc.hyps(1) [OF m lt]
  show ?case
  proof (cases "Suc i < length idx")
    case True
    then have "i < length idx" by simp
    with True Suc.prems ne show ?thesis
      by (subst ToTac_indices.simps)
         (simp add: ToTac_index.simps Let_def split_def r le IH m [symmetric])
  next
    case False
    with Suc.prems ne show ?thesis
      by (subst ToTac_indices.simps)
         (simp add: ToTac_index.simps Let_def split_def r le IH m [symmetric])
  qed
qed

lemma ToTac_indices_first:
  assumes N: "0 < N"
  shows "ToTac_indices sz idx idExpr DIM (int N) 0 None cb =
     do {
       first \<leftarrow> (case idx of [] \<Rightarrow> None | x # xs \<Rightarrow> Some x);
       (i1, c1) \<leftarrow> ToTac sz first cb;
       (a, c) \<leftarrow> offset_dims sz idx idExpr DIM (N - 1) 2 i1 c1;
       Some (Some a, c)
     }"
proof (cases idx)
  case Nil
  with N show ?thesis
    by (subst ToTac_indices.simps) (simp add: ToTac_index.simps)
next
  case (Cons x xs)
  show ?thesis
  proof (cases "N = 1")
    case True
    with Cons show ?thesis
      by (subst ToTac_indices.simps) (simp add: ToTac_index.simps Let_def split_def)
  next
    case False
    with N obtain m where m: "N - Suc 0 = Suc m" and lt: "1 < N" and ne: "int N \<noteq> 1"
      by (cases "N - 1") auto
    have m': "N - Suc (Suc 0) = m" using m by simp
    show ?thesis
    proof (cases xs)
      case Nil
      with Cons N ne lt show ?thesis
        by (subst ToTac_indices.simps)
           (simp add: ToTac_index.simps Let_def split_def m m' numeral_2_eq_2 numeral_3_eq_3
              ToTac_indices_Some [of "Suc 0", simplified])
    next
      case (Cons y ys)
      with \<open>idx = x # xs\<close> N ne lt show ?thesis
        by (subst ToTac_indices.simps)
           (simp add: ToTac_index.simps Let_def split_def m m' numeral_2_eq_2 numeral_3_eq_3
              ToTac_indices_Some [of "Suc 0", simplified])
    qed
  qed
qed



lemma ArrayDesignator_base_eq:
  "ArrayDesignator_base t symb sty cb =
     (if IsPointer sty then (CTacName symb, CAstDesignator t symb, array_of sty, cb)
      else
        (CTacTemp (fst (CreateTemp (Some (CPointerType (Some sty))) cb)),
         CAstSpecialOp t opAddress (CAstDesignator t symb) None,
         array_of sty,
         AddInstr (CTacInstr opAddress
                     (Some (Addr (CTacTemp (fst (CreateTemp (Some (CPointerType (Some sty))) cb)))))
                     (Some (CTacName symb)) None)
           (snd (CreateTemp (Some (CPointerType (Some sty))) cb))))"
  by (cases sty rule: array_of.cases) (simp_all add: ArrayDesignator_base_def split_def Let_def)

lemma array_of_Some: "array_of sty = Some arr \<Longrightarrow> \<exists>n e. arr = CArrayType n e"
  by (cases sty rule: array_of.cases) auto

text \<open>
  C1: the value form of an array designator computes the address as the specification
  says. With \<open>k\<close> indices over an array of \<open>n\<close> dimensions it starts from the value of
  the first index; for every further dimension \<open>d = 2 \<dots> n\<close> it multiplies the
  accumulated index by the result of calling DIM for \<open>d\<close> and adds the value of index
  \<open>d\<close>, or the constant 0 when \<open>d > k\<close>; it multiplies by the size of the element type,
  adds the result of calling DOFS and adds the base address, the address of the array
  being taken first when the symbol is not a pointer; the result is a reference to the
  last temporary, tagged with the symbol of the designator. Without a first index, without
  the intrinsics it needs, or on a symbol that is neither an array nor a pointer to one,
  neither side gives a result.
\<close>

theorem C1_array_offset:
  "ToTac sz (CAstArrayDesignator t symb idx fin) cb = ArrayDesignator_spec sz t symb idx cb"
proof (cases "GetDataType symb")
  case None
  then show ?thesis by (simp add: ToTac.simps(6) ArrayDesignator_spec_def)
next
  case sty: (Some sty)
  show ?thesis
  proof (cases "array_of sty")
    case None
    with sty show ?thesis
      by (cases "IsPointer sty")
         (simp_all add: ToTac.simps(6) ArrayDesignator_spec_def ArrayDesignator_base_eq)
  next
    case (Some arr)
    then obtain n e where arr: "arr = CArrayType n e" by (auto dest: array_of_Some)
    define N where "N = Suc (nat (NDim e))"
    have nd: "1 + NDim e = int N" and N0: "0 < N" and N1: "N - Suc 0 = nat (NDim e)"
      and N2: "nat (1 + NDim e) - Suc 0 = nat (NDim e)"
      using NDim_nonneg [of e] by (simp_all add: N_def)
    show ?thesis
    proof (cases idx)
      case Nil
      with sty Some arr nd show ?thesis
        by (cases "IsPointer sty")
           (simp_all add: ToTac.simps(6) ArrayDesignator_spec_def ArrayDesignator_base_eq
              ToTac_indices_first [OF N0])
    next
      case (Cons x xs)
      with sty Some arr nd N1 N2 show ?thesis
        by (cases "IsPointer sty")
           (simp_all add: ToTac.simps(6) ArrayDesignator_spec_def ArrayDesignator_base_eq
              ToTac_indices_first [OF N0] Let_def split_def)
    qed
  qed
qed


theorem C1_array_offset_witness:
  "ToTac (\<lambda>ty. 4)
     (CAstArrayDesignator (CToken 1 1) (CSymVar ''a'' (Some (CArrayType 3 (CArrayType 4 CIntType))))
        [CAstDesignator (CToken 1 3) (CSymVar ''i'' (Some CIntType))] True)
     \<lparr>instrs = [], temp_id = 0, label_id = 0,
      symtab = [(''DIM'', CSymProcedure (CSymProc ''DIM'' (Some CIntType) [Some (CPointerType None), Some CIntType])),
                (''DOFS'', CSymProcedure (CSymProc ''DOFS'' (Some CIntType) [Some (CPointerType None)]))]\<rparr> =
   Some
    (CTacReference (CTemp 9 (Some CIntType)) (CSymVar ''a'' (Some (CArrayType 3 (CArrayType 4 CIntType)))),
     \<lparr>instrs =
        [CTacInstr opAddress
           (Some (Addr (CTacTemp (CTemp 0 (Some (CPointerType (Some (CArrayType 3 (CArrayType 4 CIntType)))))))))
           (Some (CTacName (CSymVar ''a'' (Some (CArrayType 3 (CArrayType 4 CIntType)))))) None,
         CTacInstr opParam (Some (Addr (CTacConst 1))) (Some (CTacConst 2)) None,
         CTacInstr opAddress
           (Some (Addr (CTacTemp (CTemp 1 (Some (CPointerType (Some (CArrayType 3 (CArrayType 4 CIntType)))))))))
           (Some (CTacName (CSymVar ''a'' (Some (CArrayType 3 (CArrayType 4 CIntType)))))) None,
         CTacInstr opParam (Some (Addr (CTacConst 0)))
           (Some (CTacTemp (CTemp 1 (Some (CPointerType (Some (CArrayType 3 (CArrayType 4 CIntType)))))))) None,
         CTacInstr opCall (Some (Addr (CTacTemp (CTemp 2 (Some CIntType)))))
           (Some (CTacName (CSymProcedure (CSymProc ''DIM'' (Some CIntType) [Some (CPointerType None), Some CIntType]))))
           None,
         CTacInstr opMul (Some (Addr (CTacTemp (CTemp 3 (Some CIntType)))))
           (Some (CTacName (CSymVar ''i'' (Some CIntType)))) (Some (CTacTemp (CTemp 2 (Some CIntType)))),
         CTacInstr opAdd (Some (Addr (CTacTemp (CTemp 4 (Some CIntType)))))
           (Some (CTacTemp (CTemp 3 (Some CIntType)))) (Some (CTacConst 0)),
         CTacInstr opMul (Some (Addr (CTacTemp (CTemp 5 (Some CIntType)))))
           (Some (CTacTemp (CTemp 4 (Some CIntType)))) (Some (CTacConst 4)),
         CTacInstr opAddress
           (Some (Addr (CTacTemp (CTemp 6 (Some (CPointerType (Some (CArrayType 3 (CArrayType 4 CIntType)))))))))
           (Some (CTacName (CSymVar ''a'' (Some (CArrayType 3 (CArrayType 4 CIntType)))))) None,
         CTacInstr opParam (Some (Addr (CTacConst 0)))
           (Some (CTacTemp (CTemp 6 (Some (CPointerType (Some (CArrayType 3 (CArrayType 4 CIntType)))))))) None,
         CTacInstr opCall (Some (Addr (CTacTemp (CTemp 7 (Some CIntType)))))
           (Some (CTacName (CSymProcedure (CSymProc ''DOFS'' (Some CIntType) [Some (CPointerType None)]))))
           None,
         CTacInstr opAdd (Some (Addr (CTacTemp (CTemp 8 (Some CIntType)))))
           (Some (CTacTemp (CTemp 5 (Some CIntType)))) (Some (CTacTemp (CTemp 7 (Some CIntType)))),
         CTacInstr opAdd (Some (Addr (CTacTemp (CTemp 9 (Some CIntType)))))
           (Some (CTacTemp (CTemp 0 (Some (CPointerType (Some (CArrayType 3 (CArrayType 4 CIntType))))))))
           (Some (CTacTemp (CTemp 8 (Some CIntType))))],
      temp_id = 10, label_id = 0,
      symtab = [(''DIM'', CSymProcedure (CSymProc ''DIM'' (Some CIntType) [Some (CPointerType None), Some CIntType])),
                (''DOFS'', CSymProcedure (CSymProc ''DOFS'' (Some CIntType) [Some (CPointerType None)]))]\<rparr>)"
  unfolding C1_array_offset
  by (simp add: ArrayDesignator_spec_def ToTac.simps(3,4,5,7) ToTac_params.simps FindSymbol_def
        CreateTemp_def AddInstr_def)

end
